theory Spec2Isabelle
  imports Main "HOL-Library.Char_ord" "HOL-Library.List_Lexorder"
begin

section \<open>Python values and dictionaries\<close>

text \<open>
  Errors of the Python code are values: every subscript on a dictionary that could raise
  is a branch of the model.
\<close>

datatype py_error = KeyError

text \<open>
  A loaded configuration value is either a mapping (a Python \<open>dict\<close>, keeping the insertion
  order of its keys) or anything else (a scalar or a sequence), which the flattening treats
  as an opaque leaf.
\<close>

datatype 'a pyval = Leaf 'a | Dict "(string \<times> 'a pyval) list"

datatype py_scalar = NoneVal | BoolVal bool | IntVal int | StrVal string

text \<open>
  A \<open>dict\<close> is an association list in insertion order. Assigning to a key that is present
  replaces the value in place; assigning to a new key appends it.
\<close>

fun dict_set :: "('k \<times> 'v) list \<Rightarrow> 'k \<Rightarrow> 'v \<Rightarrow> ('k \<times> 'v) list" where
  "dict_set [] k v = [(k, v)]"
| "dict_set ((k', v') # d) k v = (if k' = k then (k, v) # d else (k', v') # dict_set d k v)"

fun dict_of_items :: "('k \<times> 'v) list \<Rightarrow> ('k \<times> 'v) list \<Rightarrow> ('k \<times> 'v) list" where
  "dict_of_items d [] = d"
| "dict_of_items d ((k, v) # kvs) = dict_of_items (dict_set d k v) kvs"

text \<open>\<open>dict(items)\<close>: the pairs are inserted from left to right.\<close>

definition py_dict :: "('k \<times> 'v) list \<Rightarrow> ('k \<times> 'v) list" where
  "py_dict kvs = dict_of_items [] kvs"

definition dict_get :: "('k \<times> 'v) list \<Rightarrow> 'k \<Rightarrow> 'v option" where
  "dict_get d k = map_of d k"

definition dict_contains :: "'k \<Rightarrow> ('k \<times> 'v) list \<Rightarrow> bool" where
  "dict_contains k d = (k \<in> fst ` set d)"

text \<open>A well-formed value has pairwise different keys in every mapping, as every \<open>dict\<close> has.\<close>

fun wf_pyval :: "'a pyval \<Rightarrow> bool" and wf_dict :: "(string \<times> 'a pyval) list \<Rightarrow> bool" where
  "wf_pyval (Leaf x) = True"
| "wf_pyval (Dict d) = wf_dict d"
| "wf_dict [] = True"
| "wf_dict ((k, v) # d) = (k \<notin> fst ` set d \<and> wf_pyval v \<and> wf_dict d)"

section \<open>\<open>ZenConfig._flatten_dict\<close>\<close>

text \<open>\<open>remaining = {key: val for key, val in v.items() if key != "enabled"}\<close>\<close>

definition remaining :: "(string \<times> 'v) list \<Rightarrow> (string \<times> 'v) list" where
  "remaining v = filter (\<lambda>(key, val). key \<noteq> ''enabled'') v"

text \<open>\<open>new_key = f"{parent_key}{sep}{k}" if parent_key else k\<close>\<close>

definition new_key_of :: "string \<Rightarrow> string \<Rightarrow> string \<Rightarrow> string" where
  "new_key_of parent_key sep k = (if parent_key \<noteq> [] then parent_key @ sep @ k else k)"

fun pysize :: "'a pyval \<Rightarrow> nat" and pysizes :: "(string \<times> 'a pyval) list \<Rightarrow> nat" where
  "pysize (Leaf x) = 0"
| "pysize (Dict d) = Suc (pysizes d)"
| "pysizes [] = 0"
| "pysizes ((k, v) # d) = Suc (pysize v + pysizes d)"

text \<open>
  \<open>flatten_loop\<close> is the \<open>for k, v in d.items()\<close> loop with the list \<open>items\<close> as its state;
  \<open>flatten_dict\<close> is the function itself, which returns \<open>dict(items)\<close>. The recursive calls
  return dictionaries, whose items are appended.
\<close>

function flatten_loop :: "(string \<times> 'a pyval) list \<Rightarrow> string \<Rightarrow> string \<Rightarrow> (string \<times> 'a pyval) list
     \<Rightarrow> py_error + (string \<times> 'a pyval) list"
  and flatten_dict :: "(string \<times> 'a pyval) list \<Rightarrow> string \<Rightarrow> string
     \<Rightarrow> py_error + (string \<times> 'a pyval) list"
where
  "flatten_loop [] parent_key sep items = Inr items"
| "flatten_loop ((k, Leaf x) # d) parent_key sep items =
     flatten_loop d parent_key sep (items @ [(new_key_of parent_key sep k, Leaf x)])"
| "flatten_loop ((k, Dict v) # d) parent_key sep items =
     (let new_key = new_key_of parent_key sep k in
      if dict_contains ''enabled'' v \<and> length v > 1 then
        (case dict_get v ''enabled'' of
           None \<Rightarrow> Inl KeyError
         | Some e \<Rightarrow>
            (case flatten_dict (remaining v) new_key sep of
               Inl err \<Rightarrow> Inl err
             | Inr sub \<Rightarrow> flatten_loop d parent_key sep ((items @ [(new_key, e)]) @ sub)))
      else
        (case flatten_dict v new_key sep of
           Inl err \<Rightarrow> Inl err
         | Inr sub \<Rightarrow> flatten_loop d parent_key sep (items @ sub)))"
| "flatten_dict d parent_key sep =
     (case flatten_loop d parent_key sep [] of
        Inl err \<Rightarrow> Inl err
      | Inr items \<Rightarrow> Inr (py_dict items))"
  by pat_completeness auto
termination
  apply (relation "measure (\<lambda>x. case x of Inl (d, _, _, _) \<Rightarrow> 2 * pysizes d
                                        | Inr (d, _, _) \<Rightarrow> 2 * pysizes d + 1)")
      apply simp_all
  subgoal for k v d
    apply (subgoal_tac "\<forall>w :: (string \<times> 'a pyval) list. pysizes (remaining w) \<le> pysizes w")
     apply (erule_tac x = v in allE)
     apply arith
    apply (rule allI)
    apply (induct_tac w)
     apply (auto simp: remaining_def)
    done
  done

declare flatten_dict.simps [simp del]

text \<open>
  The rule of the specification, in its own words: for each key \<open>k\<close> with value \<open>v\<close> at
  path \<open>p\<close>, a mapping with \<open>"enabled"\<close> and at least one other key emits \<open>(p, v["enabled"])\<close>
  and recurses into \<open>v\<close> minus \<open>"enabled"\<close>; any other mapping recurses with no promotion;
  anything else emits \<open>(p, v)\<close>. The result is the sequence of emissions, depth first, in
  the insertion order of the source keys.
\<close>

function flatten_rule :: "string \<Rightarrow> string \<Rightarrow> (string \<times> 'a pyval) list \<Rightarrow> (string \<times> 'a pyval) list" where
  "flatten_rule p sep [] = []"
| "flatten_rule p sep ((k, Leaf x) # d) = (new_key_of p sep k, Leaf x) # flatten_rule p sep d"
| "flatten_rule p sep ((k, Dict v) # d) =
     (case dict_get v ''enabled'' of
        Some e \<Rightarrow>
          (if \<exists>k' \<in> fst ` set v. k' \<noteq> ''enabled''
           then (new_key_of p sep k, e) # flatten_rule (new_key_of p sep k) sep (remaining v)
           else flatten_rule (new_key_of p sep k) sep v)
      | None \<Rightarrow> flatten_rule (new_key_of p sep k) sep v)
     @ flatten_rule p sep d"
  by pat_completeness auto
termination
  apply (relation "measure (\<lambda>(p, sep, d). pysizes d)")
     apply simp_all
  subgoal for v
    apply (subgoal_tac "\<forall>w :: (string \<times> 'a pyval) list. pysizes (remaining w) \<le> pysizes w")
     apply (erule_tac x = v in allE)
     apply arith
    apply (rule allI)
    apply (induct_tac w)
     apply (auto simp: remaining_def)
    done
  done

text \<open>The examples of the docstring of \<open>_flatten_dict\<close>.\<close>

definition docstring_config :: "(string \<times> py_scalar pyval) list" where
  "docstring_config =
     [(''glance'', Dict [(''enabled'', Leaf (BoolVal False))]),
      (''view'', Dict [(''compact'', Dict [(''enabled'', Leaf (BoolVal True)),
                                           (''enable-at-startup'', Leaf (BoolVal True))])])]"

section \<open>Python string operations used by the registry code\<close>

definition nl :: char where
  "nl = CHR 0x0A"

text \<open>
  The characters removed by \<open>str.strip()\<close>, for the code points below 256: tab, line feed,
  vertical tab, form feed, carriage return, the four separators \<open>0x1C\<close> to \<open>0x1F\<close>, space,
  \<open>0x85\<close> and \<open>0xA0\<close>.
\<close>

definition is_space :: "char \<Rightarrow> bool" where
  "is_space c = ((of_char c :: nat) \<in> {9, 10, 11, 12, 13, 28, 29, 30, 31, 32, 133, 160})"

definition strip :: "string \<Rightarrow> string" where
  "strip s = rev (dropWhile is_space (rev (dropWhile is_space s)))"

definition startswith :: "string \<Rightarrow> string \<Rightarrow> bool" where
  "startswith s pre = (take (length pre) s = pre)"

definition endswith :: "string \<Rightarrow> string \<Rightarrow> bool" where
  "endswith s suf = (length suf \<le> length s \<and> drop (length s - length suf) s = suf)"

text \<open>\<open>content.split('\n')\<close>, for any separator character.\<close>

fun split_on :: "char \<Rightarrow> string \<Rightarrow> string list" where
  "split_on c [] = [[]]"
| "split_on c (x # xs) =
     (if x = c then [] # split_on c xs
      else (case split_on c xs of [] \<Rightarrow> [[x]] | w # ws \<Rightarrow> (x # w) # ws))"

text \<open>\<open>'\n'.join(lines)\<close>\<close>

fun join_nl :: "string list \<Rightarrow> string" where
  "join_nl [] = []"
| "join_nl [l] = l"
| "join_nl (l # m # ls) = l @ nl # join_nl (m # ls)"

text \<open>\<open>line.split('=', 1)\<close> on a line that contains \<open>=\<close>: the parts before and after the first one.\<close>

definition split_eq :: "string \<Rightarrow> string \<times> string" where
  "split_eq line = (takeWhile (\<lambda>c. c \<noteq> CHR ''='') line, tl (dropWhile (\<lambda>c. c \<noteq> CHR ''='') line))"

text \<open>\<open>line[1:-1]\<close> and \<open>line[8:-1]\<close>\<close>

definition slice_1_m1 :: "string \<Rightarrow> string" where
  "slice_1_m1 line = butlast (drop 1 line)"

definition slice_8_m1 :: "string \<Rightarrow> string" where
  "slice_8_m1 line = butlast (drop 8 line)"

text \<open>\<open>current_section.replace('Install', '')\<close>: every occurrence is removed, from the left.\<close>

fun replace_Install :: "string \<Rightarrow> string" where
  "replace_Install [] = []"
| "replace_Install (x # xs) =
     (if startswith (x # xs) ''Install'' then replace_Install (drop 6 xs)
      else x # replace_Install xs)"

text \<open>The decimal digits of \<open>f'{current_prof_num}'\<close>.\<close>

fun str_nat :: "nat \<Rightarrow> string" where
  "str_nat n = (if n < 10 then [char_of (48 + n)] else str_nat (n div 10) @ [char_of (48 + n mod 10)])"

declare str_nat.simps [simp del]

text \<open>
  A Python \<open>set\<close> of strings is a list without repetitions; \<open>sorted\<close> of it, or of the keys of a
  dictionary, is \<open>sort\<close> in the order of the code points.
\<close>

definition set_add :: "'a list \<Rightarrow> 'a \<Rightarrow> 'a list" where
  "set_add s x = (if x \<in> set s then s else s @ [x])"

text \<open>Truth value of \<open>current_section\<close>: neither \<open>None\<close> nor the empty string.\<close>

definition truthy :: "string option \<Rightarrow> bool" where
  "truthy cs = (case cs of None \<Rightarrow> False | Some s \<Rightarrow> s \<noteq> [])"

definition is_header :: "string \<Rightarrow> bool" where
  "is_header line = (startswith line ''['' \<and> endswith line '']'')"

section \<open>The registry files\<close>

text \<open>
  The directory of the browser holds the two registry files; a file that does not exist is
  \<open>None\<close>. The contents are the text that \<open>read_text\<close> returns and \<open>write_text\<close> receives.
\<close>

record zen_dir =
  profiles_ini :: "string option"
  installs_ini :: "string option"

type_synonym ini_dict = "(string \<times> string) list"

section \<open>\<open>ZenConfig._register_profile_in_ini\<close>\<close>

record parse_state =
  current_section :: "string option"
  existing_profiles :: "ini_dict list"
  install_sections :: "(string \<times> ini_dict) list"

definition parse_init :: parse_state where
  "parse_init = \<lparr>current_section = None, existing_profiles = [], install_sections = []\<rparr>"

text \<open>The body of the loop over the lines of \<open>profiles.ini\<close>.\<close>

definition register_parse_line :: "parse_state \<Rightarrow> string \<Rightarrow> py_error + parse_state" where
  "register_parse_line st raw =
     (let line = strip raw in
      if is_header line then
        (let cs = slice_1_m1 line in
         if startswith cs ''Profile'' then
           Inr (st\<lparr>current_section := Some cs, existing_profiles := existing_profiles st @ [[]]\<rparr>)
         else if startswith cs ''Install'' then
           Inr (st\<lparr>current_section := Some cs,
                   install_sections := dict_set (install_sections st) (replace_Install cs) []\<rparr>)
         else Inr (st\<lparr>current_section := Some cs\<rparr>))
      else if CHR ''='' \<in> set line \<and> truthy (current_section st) then
        (case current_section st of
           None \<Rightarrow> Inr st
         | Some cs \<Rightarrow>
            (let key = strip (fst (split_eq line)); value = strip (snd (split_eq line)) in
             if startswith cs ''Profile'' \<and> existing_profiles st \<noteq> [] then
               Inr (st\<lparr>existing_profiles :=
                        butlast (existing_profiles st) @ [dict_set (last (existing_profiles st)) key value]\<rparr>)
             else if startswith cs ''Install'' then
               (case dict_get (install_sections st) (replace_Install cs) of
                  None \<Rightarrow> Inl KeyError
                | Some d \<Rightarrow>
                    Inr (st\<lparr>install_sections :=
                             dict_set (install_sections st) (replace_Install cs) (dict_set d key value)\<rparr>))
             else Inr st))
      else Inr st)"

fun register_parse_lines :: "parse_state \<Rightarrow> string list \<Rightarrow> py_error + parse_state" where
  "register_parse_lines st [] = Inr st"
| "register_parse_lines st (raw # ls) =
     (case register_parse_line st raw of
        Inl err \<Rightarrow> Inl err
      | Inr st' \<Rightarrow> register_parse_lines st' ls)"

text \<open>\<open>if profiles_ini.exists(): content = profiles_ini.read_text(); lines = content.split('\n'); ...\<close>\<close>

definition register_parse :: "string option \<Rightarrow> py_error + parse_state" where
  "register_parse file =
     (case file of
        None \<Rightarrow> Inr parse_init
      | Some content \<Rightarrow> register_parse_lines parse_init (split_on nl content))"

text \<open>\<open>for key, value in prof.items(): if key == 'Default': continue; lines.append(f'{key}={value}')\<close>\<close>

fun emit_items :: "ini_dict \<Rightarrow> string list \<Rightarrow> string list" where
  "emit_items [] lines = lines"
| "emit_items ((key, value) # prof) lines =
     (if key = ''Default'' then emit_items prof lines
      else emit_items prof (lines @ [key @ ''='' @ value]))"

text \<open>The loop of the branch \<open>if update_only\<close>; its state is \<open>lines\<close> and \<open>current_prof_num\<close>.\<close>

fun update_loop :: "string \<Rightarrow> ini_dict list \<Rightarrow> string list \<times> nat \<Rightarrow> string list \<times> nat" where
  "update_loop profile_name [] (lines, current_prof_num) = (lines, current_prof_num)"
| "update_loop profile_name (prof # profs) (lines, current_prof_num) =
     (let lines1 = lines @ [''[Profile'' @ str_nat current_prof_num @ '']''];
          lines2 = emit_items prof lines1;
          lines3 = (if dict_get prof ''Name'' = Some profile_name then lines2 @ [''Default=1''] else lines2);
          lines4 = lines3 @ ['''']
      in update_loop profile_name profs (lines4, current_prof_num + 1))"

text \<open>The loop of the \<open>else\<close> branch, which skips the profiles named like the target.\<close>

fun insert_loop :: "string \<Rightarrow> ini_dict list \<Rightarrow> string list \<times> nat \<Rightarrow> string list \<times> nat" where
  "insert_loop profile_name [] (lines, current_prof_num) = (lines, current_prof_num)"
| "insert_loop profile_name (prof # profs) (lines, current_prof_num) =
     (if dict_get prof ''Name'' = Some profile_name
      then insert_loop profile_name profs (lines, current_prof_num)
      else
       (let lines1 = lines @ [''[Profile'' @ str_nat current_prof_num @ '']''];
            lines2 = emit_items prof lines1;
            lines3 = lines2 @ ['''']
        in insert_loop profile_name profs (lines3, current_prof_num + 1)))"

text \<open>\<open>for install_hash in sorted(install_sections.keys()): ...\<close>\<close>

fun install_loop :: "string \<Rightarrow> string list \<Rightarrow> string list \<Rightarrow> string list" where
  "install_loop relative_path [] lines = lines"
| "install_loop relative_path (install_hash # hs) lines =
     install_loop relative_path hs
       (lines @ [''[Install'' @ install_hash @ '']'', ''Default='' @ relative_path, ''Locked=1'', ''''])"

text \<open>
  The function. \<open>relative_path\<close> stands for the text of \<open>profile_path.relative_to(zen_dir)\<close>;
  path arithmetic and the messages printed are outside the model.
\<close>

definition register_lines :: "parse_state \<Rightarrow> string \<Rightarrow> string \<Rightarrow> bool \<Rightarrow> string list" where
  "register_lines st profile_name relative_path update_only =
     (let lines0 = [''[General]'', ''StartWithLastProfile=1'', ''Version=2'', ''''];
          lines1 =
            (if update_only then fst (update_loop profile_name (existing_profiles st) (lines0, 0))
             else
               (case insert_loop profile_name (existing_profiles st) (lines0, 0) of
                  (ls, current_prof_num) \<Rightarrow>
                    ls @ [''[Profile'' @ str_nat current_prof_num @ '']'',
                          ''Name='' @ profile_name,
                          ''IsRelative=1'',
                          ''Path='' @ relative_path,
                          ''Default=1'',
                          '''']))
      in install_loop relative_path (sort (map fst (install_sections st))) lines1)"

definition register_profile_in_ini :: "zen_dir \<Rightarrow> string \<Rightarrow> string \<Rightarrow> bool \<Rightarrow> py_error + zen_dir" where
  "register_profile_in_ini dir profile_name relative_path update_only =
     (case register_parse (profiles_ini dir) of
        Inl err \<Rightarrow> Inl err
      | Inr st \<Rightarrow>
          Inr (dir\<lparr>profiles_ini :=
                    Some (join_nl (register_lines st profile_name relative_path update_only))\<rparr>))"

section \<open>The section parser of \<open>_parse_profiles_ini\<close> and \<open>_update_installs_ini\<close>\<close>

record section_state =
  cur_section :: "string option"
  section_data :: "(string \<times> ini_dict) list"

definition section_init :: section_state where
  "section_init = \<lparr>cur_section = None, section_data = []\<rparr>"

definition section_parse_line :: "section_state \<Rightarrow> string \<Rightarrow> py_error + section_state" where
  "section_parse_line st raw =
     (let line = strip raw in
      if is_header line then
        Inr (st\<lparr>cur_section := Some (slice_1_m1 line),
                section_data := dict_set (section_data st) (slice_1_m1 line) []\<rparr>)
      else if CHR ''='' \<in> set line \<and> truthy (cur_section st) then
        (case cur_section st of
           None \<Rightarrow> Inr st
         | Some cs \<Rightarrow>
            (case dict_get (section_data st) cs of
               None \<Rightarrow> Inl KeyError
             | Some d \<Rightarrow>
                 Inr (st\<lparr>section_data :=
                          dict_set (section_data st) cs
                            (dict_set d (strip (fst (split_eq line))) (strip (snd (split_eq line))))\<rparr>)))
      else Inr st)"

fun section_parse_lines :: "section_state \<Rightarrow> string list \<Rightarrow> py_error + section_state" where
  "section_parse_lines st [] = Inr st"
| "section_parse_lines st (raw # ls) =
     (case section_parse_line st raw of
        Inl err \<Rightarrow> Inl err
      | Inr st' \<Rightarrow> section_parse_lines st' ls)"

section \<open>\<open>ZenConfig._parse_profiles_ini\<close>\<close>

text \<open>
  The result is \<open>self.home / ".zen" / path\<close> for a relative profile and \<open>Path(path)\<close> otherwise;
  the model returns which of the two, with the text of the \<open>Path\<close> key.
\<close>

datatype profile_location = UnderZenDir string | Elsewhere string

fun find_profile :: "(string \<times> ini_dict) list \<Rightarrow> string \<Rightarrow> profile_location option" where
  "find_profile [] profile_name = None"
| "find_profile ((section, data) # rest) profile_name =
     (if startswith section ''Profile'' \<and> dict_get data ''Name'' = Some profile_name then
        (let path = (case dict_get data ''Path'' of None \<Rightarrow> '''' | Some p \<Rightarrow> p) in
         if dict_get data ''IsRelative'' = Some ''1'' then Some (UnderZenDir path)
         else Some (Elsewhere path))
      else find_profile rest profile_name)"

definition parse_profiles_ini :: "string \<Rightarrow> string \<Rightarrow> py_error + profile_location option" where
  "parse_profiles_ini content profile_name =
     (case section_parse_lines section_init (split_on nl content) of
        Inl err \<Rightarrow> Inl err
      | Inr st \<Rightarrow> Inr (find_profile (section_data st) profile_name))"

section \<open>\<open>ZenConfig._update_installs_ini\<close>\<close>

text \<open>The loop that collects \<open>install_hashes_from_profiles\<close>.\<close>

fun hashes_loop :: "string list \<Rightarrow> string list \<Rightarrow> string list" where
  "hashes_loop [] hashes = hashes"
| "hashes_loop (raw # ls) hashes =
     (let line = strip raw in
      if startswith line ''[Install'' \<and> endswith line '']''
      then hashes_loop ls (set_add hashes (slice_8_m1 line))
      else hashes_loop ls hashes)"

definition install_hashes_from_profiles :: "string option \<Rightarrow> string list" where
  "install_hashes_from_profiles file =
     (case file of None \<Rightarrow> [] | Some content \<Rightarrow> hashes_loop (split_on nl content) [])"

definition installs_parse :: "string option \<Rightarrow> py_error + (string \<times> ini_dict) list" where
  "installs_parse file =
     (case file of
        None \<Rightarrow> Inr []
      | Some content \<Rightarrow>
          (case section_parse_lines section_init (split_on nl content) of
             Inl err \<Rightarrow> Inl err
           | Inr st \<Rightarrow> Inr (section_data st)))"

fun installs_loop :: "string \<Rightarrow> string list \<Rightarrow> string list \<Rightarrow> string list" where
  "installs_loop relative_path [] lines = lines"
| "installs_loop relative_path (install_hash # hs) lines =
     installs_loop relative_path hs
       (lines @ [''['' @ install_hash @ '']'', ''Default='' @ relative_path, ''Locked=1'', ''''])"

definition update_installs_ini :: "zen_dir \<Rightarrow> string \<Rightarrow> py_error + zen_dir" where
  "update_installs_ini dir relative_path =
     (let install_hashes = install_hashes_from_profiles (profiles_ini dir) in
      case installs_parse (installs_ini dir) of
        Inl err \<Rightarrow> Inl err
      | Inr sections \<Rightarrow>
          (let all_hashes = (if install_hashes \<noteq> [] then install_hashes else map fst sections) in
           if all_hashes \<noteq> [] then
             Inr (dir\<lparr>installs_ini := Some (join_nl (installs_loop relative_path (sort all_hashes) []))\<rparr>)
           else Inr (dir\<lparr>installs_ini := None\<rparr>)))"

text \<open>The two calls made one after the other by \<open>detect_zen_paths\<close> and by \<open>apply\<close>.\<close>

definition registry_merge :: "zen_dir \<Rightarrow> string \<Rightarrow> string \<Rightarrow> bool \<Rightarrow> py_error + zen_dir" where
  "registry_merge dir profile_name relative_path update_only =
     (case register_profile_in_ini dir profile_name relative_path update_only of
        Inl err \<Rightarrow> Inl err
      | Inr dir' \<Rightarrow> update_installs_ini dir' relative_path)"

section \<open>The registry as the specification describes it\<close>

text \<open>
  A registry is an ordered list of sections, each a name with its keys and values. It is
  written as a header line \<open>[name]\<close>, one line \<open>key=value\<close> per key, and an empty line; the
  lines are joined by line feeds.
\<close>

type_synonym ini_section = "string \<times> ini_dict"

definition render_section :: "ini_section \<Rightarrow> string list" where
  "render_section sec =
     (''['' @ fst sec @ '']'') # map (\<lambda>(key, value). key @ ''='' @ value) (snd sec) @ ['''']"

definition render_sections :: "ini_section list \<Rightarrow> string list" where
  "render_sections secs = concat (map render_section secs)"

definition render_registry :: "ini_section list \<Rightarrow> string" where
  "render_registry secs = join_nl (render_sections secs)"

definition general_section :: ini_section where
  "general_section = (''General'', [(''StartWithLastProfile'', ''1''), (''Version'', ''2'')])"

definition without_default :: "ini_dict \<Rightarrow> ini_dict" where
  "without_default prof = filter (\<lambda>(key, value). key \<noteq> ''Default'') prof"

definition toggle_default :: "string \<Rightarrow> ini_dict \<Rightarrow> ini_dict" where
  "toggle_default profile_name prof =
     without_default prof @ (if dict_get prof ''Name'' = Some profile_name then [(''Default'', ''1'')] else [])"

definition profile_section :: "nat \<Rightarrow> ini_dict \<Rightarrow> ini_section" where
  "profile_section i kvs = (''Profile'' @ str_nat i, kvs)"

definition named :: "string \<Rightarrow> ini_dict \<Rightarrow> bool" where
  "named profile_name prof = (dict_get prof ''Name'' = Some profile_name)"

text \<open>Insert mode: the other profiles renumbered from 0 without \<open>Default\<close>, then the target.\<close>

definition target_section :: "nat \<Rightarrow> string \<Rightarrow> string \<Rightarrow> ini_section" where
  "target_section i profile_name relative_path =
     profile_section i [(''Name'', profile_name), (''IsRelative'', ''1''),
                        (''Path'', relative_path), (''Default'', ''1'')]"

definition merged_insert :: "ini_dict list \<Rightarrow> string \<Rightarrow> string \<Rightarrow> ini_section list" where
  "merged_insert profs profile_name relative_path =
     map (\<lambda>(i, prof). profile_section i (without_default prof)) (enumerate 0 profs)
     @ [target_section (length profs) profile_name relative_path]"

text \<open>Update-only mode: every profile in order, \<open>Default=1\<close> only on those named like the target.\<close>

definition merged_update :: "ini_dict list \<Rightarrow> string \<Rightarrow> ini_section list" where
  "merged_update profs profile_name =
     map (\<lambda>(i, prof). profile_section i (toggle_default profile_name prof)) (enumerate 0 profs)"

definition install_section :: "string \<Rightarrow> string \<Rightarrow> ini_section" where
  "install_section relative_path install_hash =
     (''Install'' @ install_hash, [(''Default'', relative_path), (''Locked'', ''1'')])"

definition installs_file_section :: "string \<Rightarrow> string \<Rightarrow> ini_section" where
  "installs_file_section relative_path install_hash =
     (install_hash, [(''Default'', relative_path), (''Locked'', ''1'')])"

text \<open>The names of the section headers of a text, in order, as the parsers recognise them.\<close>

definition section_headers :: "string list \<Rightarrow> string list" where
  "section_headers ls = map slice_1_m1 (filter is_header (map strip ls))"


definition merged_registry :: "parse_state \<Rightarrow> string \<Rightarrow> string \<Rightarrow> bool \<Rightarrow> ini_section list" where
  "merged_registry st profile_name relative_path update_only =
     general_section
     # (if update_only then merged_update (existing_profiles st) profile_name
        else merged_insert (filter (\<lambda>prof. \<not> named profile_name prof) (existing_profiles st))
               profile_name relative_path)
     @ map (install_section relative_path) (sort (map fst (install_sections st)))"

definition file_lines :: "string option \<Rightarrow> string list" where
  "file_lines file = (case file of None \<Rightarrow> [] | Some content \<Rightarrow> split_on nl content)"

text \<open>A line that is neither a section header nor a \<open>key=value\<close> pair.\<close>

definition malformed :: "string \<Rightarrow> bool" where
  "malformed raw = (\<not> is_header (strip raw) \<and> CHR ''='' \<notin> set (strip raw))"

text \<open>What the parsers maintain: the dictionary entry of the current section exists.\<close>

definition install_inv :: "parse_state \<Rightarrow> bool" where
  "install_inv st =
     (case current_section st of
        None \<Rightarrow> True
      | Some cs \<Rightarrow> startswith cs ''Install'' \<longrightarrow> replace_Install cs \<in> fst ` set (install_sections st))"

definition section_inv :: "section_state \<Rightarrow> bool" where
  "section_inv st =
     (case cur_section st of None \<Rightarrow> True | Some cs \<Rightarrow> cs \<in> fst ` set (section_data st))"

section \<open>Example registries\<close>

text \<open>A registry as the browser writes it: one installation, one default profile.\<close>

definition browser_registry :: string where
  "browser_registry = join_nl
     [''[Install4F96D1932A9F858E]'', ''Default=abc.Default (release)'', ''Locked=1'', ''Extra=kept?'', '''',
      ''[Profile0]'', ''Name=Default Profile'', ''IsRelative=1'', ''Path=abc.Default (release)'',
      ''Default=1'', '''',
      ''[General]'', ''StartWithLastProfile=1'', ''Version=2'', '''']"

definition browser_dir :: zen_dir where
  "browser_dir = \<lparr>profiles_ini = Some browser_registry, installs_ini = None\<rparr>"

definition browser_state :: parse_state where
  "browser_state =
     \<lparr>current_section = Some ''General'',
      existing_profiles = [[(''Name'', ''Default Profile''), (''IsRelative'', ''1''),
                            (''Path'', ''abc.Default (release)''), (''Default'', ''1'')]],
      install_sections = [(''4F96D1932A9F858E'',
                           [(''Default'', ''abc.Default (release)''), (''Locked'', ''1''),
                            (''Extra'', ''kept?'')])]\<rparr>"

text \<open>A registry whose only profile section is numbered 5.\<close>

definition numbered_registry :: string where
  "numbered_registry = join_nl
     [''[Profile5]'', ''Name=work'', ''IsRelative=1'', ''Path=work.default'', '''']"




definition is_install_section :: "ini_section \<Rightarrow> bool" where
  "is_install_section sec = startswith (fst sec) ''Install''"

text \<open>An installs file left behind by an earlier installation.\<close>

definition stale_installs :: string where
  "stale_installs = join_nl [''[4F96D1932A9F858E]'', ''Default=old.default'', ''Locked=1'', '''']"

definition merged_profiles_part :: "parse_state \<Rightarrow> string \<Rightarrow> string \<Rightarrow> bool \<Rightarrow> ini_section list" where
  "merged_profiles_part st profile_name relative_path update_only =
     general_section
     # (if update_only then merged_update (existing_profiles st) profile_name
        else merged_insert (filter (\<lambda>prof. \<not> named profile_name prof) (existing_profiles st))
               profile_name relative_path)"

section \<open>Texts that survive being written and read back\<close>

text \<open>A string without surrounding whitespace, which \<open>strip\<close> leaves as it is.\<close>

definition trimmed :: "string \<Rightarrow> bool" where
  "trimmed s = (s = [] \<or> (\<not> is_space (hd s) \<and> \<not> is_space (last s)))"
















section \<open>Dictionaries: insertion order and last value\<close>

lemma keys_dict_set:
  "map fst (dict_set d k v) = (if k \<in> fst ` set d then map fst d else map fst d @ [k])"
  by (induction d) force+

lemma keyset_dict_set: "fst ` set (dict_set d k v) = insert k (fst ` set d)"
proof -
  have "set (map fst (dict_set d k v)) = insert k (set (map fst d))"
    by (simp only: keys_dict_set) auto
  then show ?thesis by simp
qed

lemma map_of_dict_set: "map_of (dict_set d k v) = (map_of d)(k \<mapsto> v)"
  by (induction d) (auto)

lemma distinct_dict_set: "distinct (map fst d) \<Longrightarrow> distinct (map fst (dict_set d k v))"
  by (simp add: keys_dict_set)

lemma dict_eqI:
  "distinct (map fst xs) \<Longrightarrow> distinct (map fst ys) \<Longrightarrow> map fst xs = map fst ys
     \<Longrightarrow> map_of xs = map_of ys \<Longrightarrow> xs = ys"
proof (induction xs arbitrary: ys)
  case Nil
  then show ?case by simp
next
  case (Cons x xs)
  then obtain y ys' where b: "ys = y # ys'" by (cases ys) auto
  obtain k v where x: "x = (k, v)" by (cases x)
  obtain k' v' where y: "y = (k', v')" by (cases y)
  from Cons.prems b x y have kk: "k' = k" by simp
  have "map_of (x # xs) k = map_of ys k" using Cons.prems(4) by (rule fun_cong)
  with b x y kk have vv: "v' = v" by simp
  have "map_of xs = map_of ys'"
  proof
    fix z
    show "map_of xs z = map_of ys' z"
    proof (cases "z = k")
      case True
      from Cons.prems(1) x have "k \<notin> fst ` set xs" by simp
      moreover from Cons.prems(2) b y kk have "k \<notin> fst ` set ys'" by simp
      ultimately show ?thesis using True by (simp add: map_of_eq_None_iff [THEN iffD2])
    next
      case False
      have "map_of (x # xs) z = map_of ys z" using Cons.prems(4) by (rule fun_cong)
      with False b x y kk show ?thesis by simp
    qed
  qed
  moreover from Cons.prems b have "distinct (map fst xs)" "distinct (map fst ys')" "map fst xs = map fst ys'"
    by simp_all
  ultimately have "xs = ys'" by (intro Cons.IH)
  with b x y kk vv show ?case by simp
qed

lemma dict_of_items_append:
  "dict_of_items d (xs @ ys) = dict_of_items (dict_of_items d xs) ys"
  by (induction xs arbitrary: d) auto

lemma distinct_dict_of_items:
  "distinct (map fst d) \<Longrightarrow> distinct (map fst (dict_of_items d xs))"
  by (induction xs arbitrary: d) (auto simp: distinct_dict_set)

lemma dict_set_swap:
  "k \<noteq> k' \<Longrightarrow> k \<in> fst ` set d \<Longrightarrow> distinct (map fst d) \<Longrightarrow>
   dict_set (dict_set d k' v') k v = dict_set (dict_set d k v) k' v'"
  by (rule dict_eqI) (auto simp: keys_dict_set keyset_dict_set map_of_dict_set distinct_dict_set fun_upd_twist)

lemma dict_set_idem: "dict_set (dict_set d k v') k v = dict_set d k v"
  by (induction d) auto

lemma dict_set_dict_of_items:
  "k \<in> fst ` set d \<Longrightarrow> k \<notin> fst ` set xs \<Longrightarrow> distinct (map fst d) \<Longrightarrow>
   dict_set (dict_of_items d xs) k v = dict_of_items (dict_set d k v) xs"
proof (induction xs arbitrary: d)
  case Nil
  then show ?case by simp
next
  case (Cons x xs)
  obtain k' v' where x: "x = (k', v')" by (cases x)
  with Cons.prems have ne: "k \<noteq> k'" by auto
  have "dict_set (dict_of_items d (x # xs)) k v = dict_set (dict_of_items (dict_set d k' v') xs) k v"
    by (simp add: x)
  also have "\<dots> = dict_of_items (dict_set (dict_set d k' v') k v) xs"
    using Cons.prems by (intro Cons.IH) (auto simp: keyset_dict_set distinct_dict_set)
  also have "\<dots> = dict_of_items (dict_set (dict_set d k v) k' v') xs"
    using ne Cons.prems by (simp add: dict_set_swap)
  finally show ?case by (simp add: x)
qed


lemma dict_set_fresh: "k \<notin> fst ` set d \<Longrightarrow> dict_set d k v = d @ [(k, v)]"
  by (induction d) auto


lemma dict_of_items_snoc: "dict_of_items d (xs @ [(k, v)]) = dict_set (dict_of_items d xs) k v"
  by (simp add: dict_of_items_append)

lemma dict_of_items_dict_set:
  "distinct (map fst d) \<Longrightarrow> distinct (map fst e) \<Longrightarrow>
   dict_of_items d (dict_set e k v) = dict_set (dict_of_items d e) k v"
proof (induction e arbitrary: d)
  case Nil
  then show ?case by simp
next
  case (Cons x e)
  obtain k' v' where x: "x = (k', v')" by (cases x)
  show ?case
  proof (cases "k' = k")
    case True
    have "dict_set (dict_of_items (dict_set d k v') e) k v
            = dict_of_items (dict_set (dict_set d k v') k v) e"
      using Cons.prems x True
      by (intro dict_set_dict_of_items) (auto simp: keyset_dict_set distinct_dict_set)
    then show ?thesis using x True by (simp add: dict_set_idem)
  next
    case False
    have "dict_of_items (dict_set d k' v') (dict_set e k v)
            = dict_set (dict_of_items (dict_set d k' v') e) k v"
      using Cons.prems x by (intro Cons.IH) (auto simp: distinct_dict_set)
    then show ?thesis using x False by simp
  qed
qed

lemma dict_of_items_absorb:
  "distinct (map fst d) \<Longrightarrow> dict_of_items d (dict_of_items [] ys) = dict_of_items d ys"
proof (induction ys rule: rev_induct)
  case Nil
  then show ?case by simp
next
  case (snoc y ys)
  obtain k v where y: "y = (k, v)" by (cases y)
  have "dict_of_items d (dict_of_items [] (ys @ [y]))
          = dict_of_items d (dict_set (dict_of_items [] ys) k v)"
    by (simp add: y dict_of_items_append)
  also have "\<dots> = dict_set (dict_of_items d (dict_of_items [] ys)) k v"
    using snoc.prems by (intro dict_of_items_dict_set) (simp_all add: distinct_dict_of_items)
  also have "\<dots> = dict_of_items d (ys @ [y])"
    using snoc by (simp add: y dict_of_items_append)
  finally show ?case .
qed

lemma distinct_py_dict: "distinct (map fst (py_dict xs))"
  by (simp add: py_dict_def distinct_dict_of_items)

lemma py_dict_append: "py_dict (xs @ ys) = dict_of_items (py_dict xs) ys"
  by (simp add: py_dict_def dict_of_items_append)

lemma py_dict_cong:
  assumes "py_dict a = py_dict a'" and "py_dict b = py_dict b'"
  shows "py_dict (a @ b) = py_dict (a' @ b')"
proof -
  have "py_dict (a @ b) = dict_of_items (py_dict a) (py_dict b)"
    by (simp add: py_dict_append) (simp add: py_dict_def dict_of_items_absorb distinct_dict_of_items)
  also have "\<dots> = dict_of_items (py_dict a') (py_dict b')" using assms by simp
  also have "\<dots> = py_dict (a' @ b')"
    by (simp add: py_dict_append) (simp add: py_dict_def dict_of_items_absorb distinct_dict_of_items)
  finally show ?thesis .
qed

lemma dict_of_items_distinct:
  "distinct (map fst (d @ xs)) \<Longrightarrow> dict_of_items d xs = d @ xs"
proof (induction xs arbitrary: d)
  case Nil
  then show ?case by simp
next
  case (Cons x xs)
  obtain k v where x: "x = (k, v)" by (cases x)
  from Cons.prems x have "k \<notin> fst ` set d" by auto
  then have "dict_set d k v = d @ [(k, v)]" by (rule dict_set_fresh)
  moreover from Cons.prems x have "distinct (map fst ((d @ [(k, v)]) @ xs))" by simp
  ultimately show ?case using Cons.IH [of "d @ [(k, v)]"] x by simp
qed

lemma py_dict_distinct_id: "distinct (map fst d) \<Longrightarrow> py_dict d = d"
  by (simp add: py_dict_def dict_of_items_distinct)

lemma py_dict_idem: "py_dict (py_dict xs) = py_dict xs"
  by (simp add: py_dict_distinct_id distinct_py_dict)


lemma wf_dict_distinct: "wf_dict d \<Longrightarrow> distinct (map fst d)"
  by (induction d) force+

lemma wf_dict_remaining: "wf_dict d \<Longrightarrow> wf_dict (remaining d)"
  by (induction d) (auto simp: remaining_def)

lemma other_key_iff:
  assumes "distinct (map fst v)" and "k \<in> fst ` set v"
  shows "(1 < length v) = (\<exists>k' \<in> fst ` set v. k' \<noteq> k)"
proof
  assume len: "1 < length v"
  show "\<exists>k' \<in> fst ` set v. k' \<noteq> k"
  proof (rule ccontr)
    assume "\<not> ?thesis"
    then have "set (map fst v) \<subseteq> {k}" by auto
    then have "card (set (map fst v)) \<le> 1"
      by (metis card_mono finite.emptyI finite.insertI card.empty card.insert One_nat_def empty_iff)
    with distinct_card [OF assms(1)] len show False by simp
  qed
next
  assume "\<exists>k' \<in> fst ` set v. k' \<noteq> k"
  then obtain k' where k': "k' \<in> set (map fst v)" "k' \<noteq> k" by auto
  from assms(2) have "k \<in> set (map fst v)" by simp
  with k' have "{k, k'} \<subseteq> set (map fst v)" by simp
  then have "card {k, k'} \<le> card (set (map fst v))" by (intro card_mono) simp_all
  with k'(2) have "2 \<le> card (set (map fst v))" by simp
  also have "\<dots> \<le> length (map fst v)" by (rule card_length)
  finally show "1 < length v" by simp
qed

lemma dict_get_contains: "dict_contains k d \<Longrightarrow> \<exists>e. dict_get d k = Some e"
  by (auto simp: dict_contains_def dict_get_def weak_map_of_SomeI image_iff)


lemma promote_cond_iff:
  assumes "distinct (map fst v)"
  shows "(dict_contains ''enabled'' v \<and> 1 < length v)
       = (\<exists>e. dict_get v ''enabled'' = Some e \<and> (\<exists>k' \<in> fst ` set v. k' \<noteq> ''enabled''))"
proof (cases "dict_contains ''enabled'' v")
  case True
  then have "''enabled'' \<in> fst ` set v" by (simp add: dict_contains_def)
  from other_key_iff [OF assms this] dict_get_contains [OF True] True show ?thesis by simp
next
  case False
  then have "dict_get v ''enabled'' = None"
    by (simp add: dict_contains_def dict_get_def map_of_eq_None_iff)
  with False show ?thesis by simp
qed

lemma flatten_refines_rule:
  "(wf_dict d \<longrightarrow> (\<exists>out. flatten_loop d p sep items = Inr (items @ out)
        \<and> py_dict out = py_dict (flatten_rule p sep d)))"
  "(wf_dict d \<longrightarrow> flatten_dict d p sep = Inr (py_dict (flatten_rule p sep d)))"
proof (induction d p sep items and d p sep rule: flatten_loop_flatten_dict.induct)
  case (1 parent_key sep items)
  show ?case by simp
next
  case (2 k x d parent_key sep items)
  show ?case
  proof
    assume wf: "wf_dict ((k, Leaf x) # d)"
    then have "wf_dict d" by simp
    with 2 obtain out where out:
      "flatten_loop d parent_key sep (items @ [(new_key_of parent_key sep k, Leaf x)])
         = Inr ((items @ [(new_key_of parent_key sep k, Leaf x)]) @ out)"
      "py_dict out = py_dict (flatten_rule parent_key sep d)" by blast
    have "py_dict ([(new_key_of parent_key sep k, Leaf x)] @ out)
        = py_dict ([(new_key_of parent_key sep k, Leaf x)] @ flatten_rule parent_key sep d)"
      by (rule py_dict_cong) (simp_all add: out)
    with out(1) show "\<exists>out. flatten_loop ((k, Leaf x) # d) parent_key sep items = Inr (items @ out)
        \<and> py_dict out = py_dict (flatten_rule parent_key sep ((k, Leaf x) # d))"
      by simp
  qed
next
  case (3 k v d parent_key sep items)
  let ?nk = "new_key_of parent_key sep k"
  show ?case
  proof
    assume wf: "wf_dict ((k, Dict v) # d)"
    then have wfd: "wf_dict d" and wfv: "wf_dict v" by simp_all
    have dv: "distinct (map fst v)" using wfv by (rule wf_dict_distinct)
    show "\<exists>out. flatten_loop ((k, Dict v) # d) parent_key sep items = Inr (items @ out)
        \<and> py_dict out = py_dict (flatten_rule parent_key sep ((k, Dict v) # d))"
    proof (cases "dict_contains ''enabled'' v \<and> 1 < length v")
      case True
      with promote_cond_iff [OF dv] obtain e where e: "dict_get v ''enabled'' = Some e"
        and other: "\<exists>k' \<in> fst ` set v. k' \<noteq> ''enabled''" by auto
      have sub: "flatten_dict (remaining v) ?nk sep = Inr (py_dict (flatten_rule ?nk sep (remaining v)))"
        using "3.IH"(1) [OF refl True e] wf_dict_remaining [OF wfv] by simp
      let ?sub = "py_dict (flatten_rule ?nk sep (remaining v))"
      from "3.IH"(2) [OF refl True e sub] wfd obtain out where out:
        "flatten_loop d parent_key sep ((items @ [(?nk, e)]) @ ?sub) = Inr (((items @ [(?nk, e)]) @ ?sub) @ out)"
        "py_dict out = py_dict (flatten_rule parent_key sep d)" by blast
      have eq: "py_dict (([(?nk, e)] @ ?sub) @ out)
          = py_dict (([(?nk, e)] @ flatten_rule ?nk sep (remaining v)) @ flatten_rule parent_key sep d)"
        by (intro py_dict_cong) (simp_all add: out py_dict_idem)
      have rule: "flatten_rule parent_key sep ((k, Dict v) # d)
                    = ([(?nk, e)] @ flatten_rule ?nk sep (remaining v)) @ flatten_rule parent_key sep d"
        using e other by simp
      have "flatten_loop ((k, Dict v) # d) parent_key sep items = Inr (items @ (([(?nk, e)] @ ?sub) @ out))"
        using out(1) True e sub by (simp add: Let_def)
      with eq show ?thesis unfolding rule by blast
    next
      case False
      have sub: "flatten_dict v ?nk sep = Inr (py_dict (flatten_rule ?nk sep v))"
        using "3.IH"(3) [OF refl False] wfv by simp
      let ?sub = "py_dict (flatten_rule ?nk sep v)"
      from "3.IH"(4) [OF refl False sub] wfd obtain out where out:
        "flatten_loop d parent_key sep (items @ ?sub) = Inr ((items @ ?sub) @ out)"
        "py_dict out = py_dict (flatten_rule parent_key sep d)" by blast
      have eq: "py_dict (?sub @ out)
          = py_dict (flatten_rule ?nk sep v @ flatten_rule parent_key sep d)"
        by (intro py_dict_cong) (simp_all add: out py_dict_idem)
      from False promote_cond_iff [OF dv]
      have rule: "flatten_rule parent_key sep ((k, Dict v) # d)
                    = flatten_rule ?nk sep v @ flatten_rule parent_key sep d"
        by (auto split: option.splits)
      have "flatten_loop ((k, Dict v) # d) parent_key sep items = Inr (items @ (?sub @ out))"
        using out(1) False sub by (auto simp: Let_def)
      with eq show ?thesis unfolding rule by blast
    qed
  qed
next
  case (4 d parent_key sep)
  show ?case
  proof
    assume "wf_dict d"
    with 4 obtain out where "flatten_loop d parent_key sep [] = Inr ([] @ out)"
      "py_dict out = py_dict (flatten_rule parent_key sep d)" by blast
    then show "flatten_dict d parent_key sep = Inr (py_dict (flatten_rule parent_key sep d))"
      by (simp add: flatten_dict.simps)
  qed
qed

section \<open>The flattening rule\<close>



text \<open>
  C4. For every mapping with pairwise different keys at each level, \<open>_flatten_dict\<close> returns
  the dictionary built from the emissions of the three-case rule: a mapping value holding
  \<open>"enabled"\<close> and at least one other key emits its \<open>"enabled"\<close> value at the path of the key
  and recurses into the value minus \<open>"enabled"\<close> below that path; a mapping value whose only
  key is \<open>"enabled"\<close>, or without that key, recurses with no promotion; any other value is
  emitted at its path. In particular
  \<open>flatten({"a": {"enabled": True, "x": 1}}) == {"a": True, "a.x": 1}\<close>.
\<close>

theorem flatten_three_case_rule:
  "(wf_dict d \<longrightarrow> flatten_dict d p sep = Inr (py_dict (flatten_rule p sep d)))
   \<and> flatten_dict [(''a'', Dict [(''enabled'', Leaf (BoolVal True)), (''x'', Leaf (IntVal 1))])] '''' ''.''
       = Inr [(''a'', Leaf (BoolVal True)), (''a.x'', Leaf (IntVal 1))]"
proof
  show "wf_dict d \<longrightarrow> flatten_dict d p sep = Inr (py_dict (flatten_rule p sep d))"
    by (rule flatten_refines_rule(2))
next
  show "flatten_dict [(''a'', Dict [(''enabled'', Leaf (BoolVal True)), (''x'', Leaf (IntVal 1))])] '''' ''.''
       = Inr [(''a'', Leaf (BoolVal True)), (''a.x'', Leaf (IntVal 1))]"
    by code_simp
qed

theorem flatten_three_case_rule_witness:
  "wf_dict docstring_config
   \<and> flatten_dict docstring_config '''' ''.''
       = Inr (py_dict (flatten_rule '''' ''.'' docstring_config))
   \<and> py_dict (flatten_rule '''' ''.'' docstring_config)
       = [(''glance.enabled'', Leaf (BoolVal False)),
          (''view.compact'', Leaf (BoolVal True)),
          (''view.compact.enable-at-startup'', Leaf (BoolVal True))]"
proof -
  have wf: "wf_dict docstring_config" by code_simp
  have r: "py_dict (flatten_rule '''' ''.'' docstring_config)
       = [(''glance.enabled'', Leaf (BoolVal False)),
          (''view.compact'', Leaf (BoolVal True)),
          (''view.compact.enable-at-startup'', Leaf (BoolVal True))]" by code_simp
  have "flatten_dict docstring_config '''' ''.''
       = Inr (py_dict (flatten_rule '''' ''.'' docstring_config))"
    by (rule flatten_three_case_rule [THEN conjunct1, rule_format, OF wf])
  with wf r show ?thesis by (intro conjI)
qed



section \<open>The loops that write the registry\<close>

lemma emit_items_eq:
  "emit_items prof lines = lines @ map (\<lambda>(key, value). key @ ''='' @ value) (without_default prof)"
  by (induction prof arbitrary: lines) (auto simp: without_default_def)

lemma render_sections_Cons: "render_sections (sec # secs) = render_section sec @ render_sections secs"
  by (simp add: render_sections_def)

lemma render_sections_append: "render_sections (a @ b) = render_sections a @ render_sections b"
  by (simp add: render_sections_def)

lemma render_sections_Nil: "render_sections [] = []"
  by (simp add: render_sections_def)

lemma update_loop_eq:
  "update_loop profile_name profs (lines, n)
     = (lines @ render_sections
           (map (\<lambda>(i, prof). profile_section i (toggle_default profile_name prof)) (enumerate n profs)),
        n + length profs)"
proof (induction profs arbitrary: lines n)
  case Nil
  show ?case by (simp add: render_sections_Nil)
next
  case (Cons prof profs)
  show ?case
    by (simp add: Let_def Cons.IH emit_items_eq render_sections_Cons render_section_def
        profile_section_def toggle_default_def)
qed

lemma insert_loop_eq:
  "insert_loop profile_name profs (lines, n)
     = (lines @ render_sections
           (map (\<lambda>(i, prof). profile_section i (without_default prof))
              (enumerate n (filter (\<lambda>prof. \<not> named profile_name prof) profs))),
        n + length (filter (\<lambda>prof. \<not> named profile_name prof) profs))"
proof (induction profs arbitrary: lines n)
  case Nil
  show ?case by (simp add: render_sections_Nil)
next
  case (Cons prof profs)
  show ?case
    by (simp add: Let_def Cons.IH emit_items_eq render_sections_Cons render_section_def
        profile_section_def named_def)
qed

lemma install_loop_eq:
  "install_loop relative_path hs lines
     = lines @ render_sections (map (install_section relative_path) hs)"
  by (induction hs arbitrary: lines)
     (simp_all add: render_sections_Nil render_sections_Cons render_section_def install_section_def)

lemma installs_loop_eq:
  "installs_loop relative_path hs lines
     = lines @ render_sections (map (installs_file_section relative_path) hs)"
  by (induction hs arbitrary: lines)
     (simp_all add: render_sections_Nil render_sections_Cons render_section_def
        installs_file_section_def)

lemma render_general:
  "render_section general_section = [''[General]'', ''StartWithLastProfile=1'', ''Version=2'', '''']"
  unfolding general_section_def render_section_def by simp

lemma render_target:
  "render_section (target_section i profile_name relative_path)
     = [''[Profile'' @ str_nat i @ '']'', ''Name='' @ profile_name, ''IsRelative=1'',
        ''Path='' @ relative_path, ''Default=1'', '''']"
  unfolding target_section_def profile_section_def render_section_def by simp

lemma register_lines_update:
  "register_lines st profile_name relative_path True
     = render_sections (general_section # merged_update (existing_profiles st) profile_name
          @ map (install_section relative_path) (sort (map fst (install_sections st))))"
  by (simp add: register_lines_def update_loop_eq install_loop_eq merged_update_def
      render_sections_Cons render_sections_append render_general)

lemma register_lines_insert:
  "register_lines st profile_name relative_path False
     = render_sections (general_section
          # merged_insert (filter (\<lambda>prof. \<not> named profile_name prof) (existing_profiles st))
              profile_name relative_path
          @ map (install_section relative_path) (sort (map fst (install_sections st))))"
  by (simp add: register_lines_def insert_loop_eq install_loop_eq merged_insert_def
      render_sections_Cons render_sections_append render_sections_Nil render_general
      render_target)

section \<open>The parsers never fail\<close>

lemma dict_get_Some_iff: "(\<exists>d. dict_get m k = Some d) = (k \<in> fst ` set m)"
proof -
  have "(map_of m k = None) = (k \<notin> fst ` set m)" by (rule map_of_eq_None_iff)
  then show ?thesis by (cases "map_of m k") (simp_all add: dict_get_def)
qed

lemma Profile_not_Install: "startswith cs ''Profile'' \<Longrightarrow> \<not> startswith cs ''Install''"
  by (cases cs) (auto simp: startswith_def)

lemma register_parse_line_total:
  assumes "install_inv st"
  shows "\<exists>st'. register_parse_line st raw = Inr st' \<and> install_inv st'"
proof (cases "is_header (strip raw)")
  case True
  then show ?thesis
    by (auto simp: register_parse_line_def Let_def install_inv_def keyset_dict_set
        dest: Profile_not_Install)
next
  case hdr: False
  show ?thesis
  proof (cases "CHR ''='' \<in> set (strip raw) \<and> truthy (current_section st)")
    case False
    with hdr assms show ?thesis by (auto simp: register_parse_line_def Let_def)
  next
    case True
    then obtain cs where cs: "current_section st = Some cs"
      by (auto simp: truthy_def split: option.splits)
    show ?thesis
    proof (cases "startswith cs ''Profile'' \<and> existing_profiles st \<noteq> []")
      case True
      with hdr \<open>CHR ''='' \<in> set (strip raw) \<and> truthy (current_section st)\<close> cs assms
      show ?thesis
        by (auto simp: register_parse_line_def Let_def install_inv_def)
    next
      case np: False
      show ?thesis
      proof (cases "startswith cs ''Install''")
        case False
        with np hdr \<open>CHR ''='' \<in> set (strip raw) \<and> truthy (current_section st)\<close> cs assms
        show ?thesis
          by (auto simp: register_parse_line_def Let_def install_inv_def)
      next
        case True
        with assms cs have "replace_Install cs \<in> fst ` set (install_sections st)"
          by (simp add: install_inv_def)
        then obtain d where d: "dict_get (install_sections st) (replace_Install cs) = Some d"
          using dict_get_Some_iff [of "install_sections st" "replace_Install cs"] by blast
        with True np hdr \<open>CHR ''='' \<in> set (strip raw) \<and> truthy (current_section st)\<close> cs
        show ?thesis
          by (auto simp: register_parse_line_def Let_def install_inv_def keyset_dict_set)
      qed
    qed
  qed
qed

lemma register_parse_lines_total:
  "install_inv st \<Longrightarrow> \<exists>st'. register_parse_lines st ls = Inr st' \<and> install_inv st'"
proof (induction ls arbitrary: st)
  case Nil
  then show ?case by simp
next
  case (Cons raw ls)
  from register_parse_line_total [OF Cons.prems, of raw] obtain st1 where
    st1: "register_parse_line st raw = Inr st1" "install_inv st1" by blast
  from Cons.IH [OF st1(2)] st1(1) show ?case by simp
qed

lemma install_inv_init: "install_inv parse_init"
  by (simp add: install_inv_def parse_init_def)

lemma register_parse_total: "\<exists>st. register_parse file = Inr st"
proof (cases "file")
  case None
  then show ?thesis by (simp add: register_parse_def)
next
  case (Some content)
  from register_parse_lines_total [OF install_inv_init, of "split_on nl content"] Some
  show ?thesis by (auto simp: register_parse_def)
qed

lemma section_parse_line_total:
  assumes "section_inv st"
  shows "\<exists>st'. section_parse_line st raw = Inr st' \<and> section_inv st'"
proof (cases "is_header (strip raw)")
  case True
  then show ?thesis
    by (simp add: section_parse_line_def Let_def section_inv_def keyset_dict_set)
next
  case hdr: False
  show ?thesis
  proof (cases "CHR ''='' \<in> set (strip raw) \<and> truthy (cur_section st)")
    case False
    with hdr assms show ?thesis by (auto simp: section_parse_line_def Let_def)
  next
    case True
    then obtain cs where cs: "cur_section st = Some cs"
      by (auto simp: truthy_def split: option.splits)
    with assms have "cs \<in> fst ` set (section_data st)" by (simp add: section_inv_def)
    then obtain d where d: "dict_get (section_data st) cs = Some d"
      using dict_get_Some_iff [of "section_data st" cs] by blast
    with True hdr cs \<open>cs \<in> fst ` set (section_data st)\<close> show ?thesis
      by (simp add: section_parse_line_def Let_def section_inv_def keyset_dict_set)
  qed
qed

lemma section_parse_lines_total:
  "section_inv st \<Longrightarrow> \<exists>st'. section_parse_lines st ls = Inr st' \<and> section_inv st'"
proof (induction ls arbitrary: st)
  case Nil
  then show ?case by simp
next
  case (Cons raw ls)
  from section_parse_line_total [OF Cons.prems, of raw] obtain st1 where
    st1: "section_parse_line st raw = Inr st1" "section_inv st1" by blast
  from Cons.IH [OF st1(2)] st1(1) show ?case by simp
qed

lemma section_inv_init: "section_inv section_init"
  by (simp add: section_inv_def section_init_def)

lemma installs_parse_total: "\<exists>sections. installs_parse file = Inr sections"
proof (cases "file")
  case None
  then show ?thesis by (simp add: installs_parse_def)
next
  case (Some content)
  from section_parse_lines_total [OF section_inv_init, of "split_on nl content"] Some
  show ?thesis by (auto simp: installs_parse_def)
qed

section \<open>What the registry parser collects\<close>






lemma register_profile_in_ini_eq:
  assumes "register_parse (profiles_ini dir) = Inr st"
  shows "register_profile_in_ini dir profile_name relative_path update_only
       = Inr (dir\<lparr>profiles_ini :=
                 Some (render_registry (merged_registry st profile_name relative_path update_only))\<rparr>)"
proof (cases update_only)
  case True
  with assms show ?thesis
    by (simp add: register_profile_in_ini_def render_registry_def merged_registry_def
        register_lines_update)
next
  case False
  with assms show ?thesis
    by (simp add: register_profile_in_ini_def render_registry_def merged_registry_def
        register_lines_insert)
qed

section \<open>The hashes read from \<open>profiles.ini\<close> by the installs update\<close>

lemma hashes_loop_set:
  "set (hashes_loop ls hashes)
     = set hashes \<union> slice_8_m1 ` {l \<in> strip ` set ls. startswith l ''[Install'' \<and> endswith l '']''}"
  by (induction ls arbitrary: hashes) (auto simp: Let_def set_add_def)

lemma hashes_loop_distinct: "distinct hashes \<Longrightarrow> distinct (hashes_loop ls hashes)"
  by (induction ls arbitrary: hashes) (auto simp: Let_def set_add_def)

lemma install_hashes_from_profiles_set:
  "set (install_hashes_from_profiles file)
     = slice_8_m1 ` {l \<in> strip ` set (file_lines file). startswith l ''[Install'' \<and> endswith l '']''}"
  by (cases "file") (simp_all add: install_hashes_from_profiles_def file_lines_def hashes_loop_set)

lemma install_hashes_from_profiles_distinct: "distinct (install_hashes_from_profiles file)"
  by (cases "file") (simp_all add: install_hashes_from_profiles_def hashes_loop_distinct)

section \<open>Lines that the parsers skip\<close>

lemma register_parse_line_malformed: "malformed raw \<Longrightarrow> register_parse_line st raw = Inr st"
  by (simp add: malformed_def register_parse_line_def Let_def)

lemma section_parse_line_malformed: "malformed raw \<Longrightarrow> section_parse_line st raw = Inr st"
  by (simp add: malformed_def section_parse_line_def Let_def)

lemma register_parse_line_no_section:
  "\<not> is_header (strip raw) \<Longrightarrow> \<not> truthy (current_section st) \<Longrightarrow> register_parse_line st raw = Inr st"
  by (simp add: register_parse_line_def Let_def)

lemma section_parse_line_no_section:
  "\<not> is_header (strip raw) \<Longrightarrow> \<not> truthy (cur_section st) \<Longrightarrow> section_parse_line st raw = Inr st"
  by (simp add: section_parse_line_def Let_def)

lemma register_parse_lines_filter:
  "register_parse_lines st (filter (\<lambda>raw. \<not> malformed raw) ls) = register_parse_lines st ls"
  by (induction ls arbitrary: st) (auto simp: register_parse_line_malformed split: sum.splits)

lemma section_parse_lines_filter:
  "section_parse_lines st (filter (\<lambda>raw. \<not> malformed raw) ls) = section_parse_lines st ls"
  by (induction ls arbitrary: st) (auto simp: section_parse_line_malformed split: sum.splits)

lemma register_parse_lines_before_header:
  "\<forall>raw \<in> set pre. \<not> is_header (strip raw) \<Longrightarrow> \<not> truthy (current_section st) \<Longrightarrow>
   register_parse_lines st (pre @ ls) = register_parse_lines st ls"
  by (induction pre) (simp_all add: register_parse_line_no_section)

lemma section_parse_lines_before_header:
  "\<forall>raw \<in> set pre. \<not> is_header (strip raw) \<Longrightarrow> \<not> truthy (cur_section st) \<Longrightarrow>
   section_parse_lines st (pre @ ls) = section_parse_lines st ls"
  by (induction pre) (simp_all add: section_parse_line_no_section)

section \<open>Insert mode\<close>

lemma str_nat_0: "str_nat 0 = ''0''"
  by code_simp

lemma filter_not_named_absent:
  "\<forall>prof \<in> set profs. \<not> named profile_name prof \<Longrightarrow>
   filter (\<lambda>prof. \<not> named profile_name prof) profs = profs"
  by (induction profs) simp_all

text \<open>
  C6. In insert mode, when no profile section of the parsed registry has the name of the
  target, the text written to \<open>profiles.ini\<close> is the \<open>General\<close> section, then every existing
  profile section in order, renumbered \<open>Profile0\<close>, \<open>Profile1\<close>, ... and without its \<open>Default\<close>
  key, then the section \<open>Profile<N>\<close> of the target with \<open>Name\<close>, \<open>IsRelative=1\<close>, \<open>Path\<close> and
  \<open>Default=1\<close>, then the install sections. When the registry file is absent or empty, the
  text is the \<open>General\<close> section followed by the single section \<open>Profile0\<close> of the target.
\<close>

theorem insert_mode_appends_target:
  "(\<exists>st. register_parse (profiles_ini dir) = Inr st
      \<and> ((\<forall>prof \<in> set (existing_profiles st). \<not> named profile_name prof) \<longrightarrow>
           register_profile_in_ini dir profile_name relative_path False
             = Inr (dir\<lparr>profiles_ini := Some (render_registry
                  (general_section
                   # merged_insert (existing_profiles st) profile_name relative_path
                   @ map (install_section relative_path) (sort (map fst (install_sections st)))))\<rparr>)))
   \<and> (profiles_ini dir = None \<or> profiles_ini dir = Some [] \<longrightarrow>
        register_profile_in_ini dir profile_name relative_path False
          = Inr (dir\<lparr>profiles_ini := Some (join_nl
               [''[General]'', ''StartWithLastProfile=1'', ''Version=2'', '''',
                ''[Profile0]'', ''Name='' @ profile_name, ''IsRelative=1'',
                ''Path='' @ relative_path, ''Default=1'', ''''])\<rparr>))"
proof (intro conjI impI)
  from register_parse_total obtain st where st: "register_parse (profiles_ini dir) = Inr st" ..
  have "(\<forall>prof \<in> set (existing_profiles st). \<not> named profile_name prof) \<longrightarrow>
           register_profile_in_ini dir profile_name relative_path False
             = Inr (dir\<lparr>profiles_ini := Some (render_registry
                  (general_section
                   # merged_insert (existing_profiles st) profile_name relative_path
                   @ map (install_section relative_path) (sort (map fst (install_sections st)))))\<rparr>)"
  proof
    assume "\<forall>prof \<in> set (existing_profiles st). \<not> named profile_name prof"
    then have "filter (\<lambda>prof. \<not> named profile_name prof) (existing_profiles st) = existing_profiles st"
      by (rule filter_not_named_absent)
    with register_profile_in_ini_eq [OF st, of profile_name relative_path False]
    show "register_profile_in_ini dir profile_name relative_path False
             = Inr (dir\<lparr>profiles_ini := Some (render_registry
                  (general_section
                   # merged_insert (existing_profiles st) profile_name relative_path
                   @ map (install_section relative_path) (sort (map fst (install_sections st)))))\<rparr>)"
      by (simp add: merged_registry_def)
  qed
  with st show "\<exists>st. register_parse (profiles_ini dir) = Inr st
      \<and> ((\<forall>prof \<in> set (existing_profiles st). \<not> named profile_name prof) \<longrightarrow>
           register_profile_in_ini dir profile_name relative_path False
             = Inr (dir\<lparr>profiles_ini := Some (render_registry
                  (general_section
                   # merged_insert (existing_profiles st) profile_name relative_path
                   @ map (install_section relative_path) (sort (map fst (install_sections st)))))\<rparr>))"
    by blast
next
  assume "profiles_ini dir = None \<or> profiles_ini dir = Some []"
  then have "register_parse (profiles_ini dir) = Inr parse_init"
    by (auto simp: register_parse_def register_parse_line_def Let_def strip_def is_header_def
        startswith_def)
  from register_profile_in_ini_eq [OF this, of profile_name relative_path False]
  show "register_profile_in_ini dir profile_name relative_path False
          = Inr (dir\<lparr>profiles_ini := Some (join_nl
               [''[General]'', ''StartWithLastProfile=1'', ''Version=2'', '''',
                ''[Profile0]'', ''Name='' @ profile_name, ''IsRelative=1'',
                ''Path='' @ relative_path, ''Default=1'', ''''])\<rparr>)"
    by (simp add: merged_registry_def parse_init_def merged_insert_def render_registry_def
        render_sections_Cons render_sections_Nil render_general render_target
        str_nat_0)
qed

theorem insert_mode_appends_target_witness:
  "register_parse (profiles_ini browser_dir) = Inr browser_state
   \<and> map (named ''work'') (existing_profiles browser_state) = [False]
   \<and> register_profile_in_ini browser_dir ''work'' ''work.default'' False
       = Inr \<lparr>profiles_ini = Some (join_nl
            [''[General]'', ''StartWithLastProfile=1'', ''Version=2'', '''',
             ''[Profile0]'', ''Name=Default Profile'', ''IsRelative=1'',
             ''Path=abc.Default (release)'', '''',
             ''[Profile1]'', ''Name=work'', ''IsRelative=1'', ''Path=work.default'',
             ''Default=1'', '''',
             ''[Install4F96D1932A9F858E]'', ''Default=work.default'', ''Locked=1'', '''']),
          installs_ini = None\<rparr>"
proof -
  have p: "register_parse (profiles_ini browser_dir) = Inr browser_state" by code_simp
  have n: "map (named ''work'') (existing_profiles browser_state) = [False]" by code_simp
  then have absent: "\<forall>prof \<in> set (existing_profiles browser_state). \<not> named ''work'' prof"
    by (simp add: browser_state_def)
  from insert_mode_appends_target [of browser_dir "''work''" "''work.default''"]
  obtain st where st: "register_parse (profiles_ini browser_dir) = Inr st"
    and imp: "(\<forall>prof \<in> set (existing_profiles st). \<not> named ''work'' prof) \<longrightarrow>
           register_profile_in_ini browser_dir ''work'' ''work.default'' False
             = Inr (browser_dir\<lparr>profiles_ini := Some (render_registry
                  (general_section
                   # merged_insert (existing_profiles st) ''work'' ''work.default''
                   @ map (install_section ''work.default'') (sort (map fst (install_sections st)))))\<rparr>)"
    by (elim conjE exE)
  from st p have eq: "st = browser_state" by simp
  from imp absent have r: "register_profile_in_ini browser_dir ''work'' ''work.default'' False
             = Inr (browser_dir\<lparr>profiles_ini := Some (render_registry
                  (general_section
                   # merged_insert (existing_profiles browser_state) ''work'' ''work.default''
                   @ map (install_section ''work.default'')
                       (sort (map fst (install_sections browser_state)))))\<rparr>)"
    unfolding eq by (rule mp)
  have t: "browser_dir\<lparr>profiles_ini := Some (render_registry
                  (general_section
                   # merged_insert (existing_profiles browser_state) ''work'' ''work.default''
                   @ map (install_section ''work.default'')
                       (sort (map fst (install_sections browser_state)))))\<rparr>
       = \<lparr>profiles_ini = Some (join_nl
            [''[General]'', ''StartWithLastProfile=1'', ''Version=2'', '''',
             ''[Profile0]'', ''Name=Default Profile'', ''IsRelative=1'',
             ''Path=abc.Default (release)'', '''',
             ''[Profile1]'', ''Name=work'', ''IsRelative=1'', ''Path=work.default'',
             ''Default=1'', '''',
             ''[Install4F96D1932A9F858E]'', ''Default=work.default'', ''Locked=1'', '''']),
          installs_ini = None\<rparr>"
    by code_simp
  from p n r show ?thesis unfolding t by (intro conjI)
qed

section \<open>Update-only mode\<close>

lemma merged_update_nth:
  "i < length profs \<Longrightarrow>
   merged_update profs profile_name ! i
     = (''Profile'' @ str_nat i,
        filter (\<lambda>(key, value). key \<noteq> ''Default'') (profs ! i)
        @ (if dict_get (profs ! i) ''Name'' = Some profile_name then [(''Default'', ''1'')] else []))"
  by (simp add: merged_update_def nth_enumerate_eq profile_section_def toggle_default_def
      without_default_def)

text \<open>
  C3, as amended. In update-only mode the text written to \<open>profiles.ini\<close> is the \<open>General\<close>
  section, then every parsed profile section in its original order, numbered
  \<open>Profile0\<close>, \<open>Profile1\<close>, ... by position (the numbers of the input are not kept), each with its
  keys and values in order except \<open>Default\<close>, and with \<open>Default=1\<close> added exactly when its
  \<open>Name\<close> is the target name; then the install sections.
\<close>

theorem update_mode_toggles_default:
  "\<exists>st. register_parse (profiles_ini dir) = Inr st
     \<and> register_profile_in_ini dir profile_name relative_path True
         = Inr (dir\<lparr>profiles_ini := Some (render_registry
              (general_section
               # merged_update (existing_profiles st) profile_name
               @ map (install_section relative_path) (sort (map fst (install_sections st)))))\<rparr>)
     \<and> length (merged_update (existing_profiles st) profile_name) = length (existing_profiles st)
     \<and> (\<forall>i < length (existing_profiles st).
           merged_update (existing_profiles st) profile_name ! i
             = (''Profile'' @ str_nat i,
                filter (\<lambda>(key, value). key \<noteq> ''Default'') (existing_profiles st ! i)
                @ (if dict_get (existing_profiles st ! i) ''Name'' = Some profile_name
                   then [(''Default'', ''1'')] else [])))"
proof -
  from register_parse_total obtain st where st: "register_parse (profiles_ini dir) = Inr st" ..
  from register_profile_in_ini_eq [OF st, of profile_name relative_path True]
  have "register_profile_in_ini dir profile_name relative_path True
         = Inr (dir\<lparr>profiles_ini := Some (render_registry
              (general_section
               # merged_update (existing_profiles st) profile_name
               @ map (install_section relative_path) (sort (map fst (install_sections st)))))\<rparr>)"
    by (simp add: merged_registry_def)
  moreover have "length (merged_update (existing_profiles st) profile_name) = length (existing_profiles st)"
    by (simp add: merged_update_def)
  moreover have "\<forall>i < length (existing_profiles st).
           merged_update (existing_profiles st) profile_name ! i
             = (''Profile'' @ str_nat i,
                filter (\<lambda>(key, value). key \<noteq> ''Default'') (existing_profiles st ! i)
                @ (if dict_get (existing_profiles st ! i) ''Name'' = Some profile_name
                   then [(''Default'', ''1'')] else []))"
    by (intro allI impI merged_update_nth)
  ultimately show ?thesis using st by blast
qed

theorem update_mode_toggles_default_witness:
  "register_parse (profiles_ini browser_dir) = Inr browser_state
   \<and> length (existing_profiles browser_state) = 1
   \<and> register_profile_in_ini browser_dir ''Default Profile'' ''abc.Default (release)'' True
       = Inr \<lparr>profiles_ini = Some (join_nl
            [''[General]'', ''StartWithLastProfile=1'', ''Version=2'', '''',
             ''[Profile0]'', ''Name=Default Profile'', ''IsRelative=1'',
             ''Path=abc.Default (release)'', ''Default=1'', '''',
             ''[Install4F96D1932A9F858E]'', ''Default=abc.Default (release)'', ''Locked=1'', '''']),
          installs_ini = None\<rparr>
   \<and> merged_update (existing_profiles browser_state) ''Default Profile'' ! 0
       = (''Profile0'', [(''Name'', ''Default Profile''), (''IsRelative'', ''1''),
                         (''Path'', ''abc.Default (release)''), (''Default'', ''1'')])"
proof -
  have p: "register_parse (profiles_ini browser_dir) = Inr browser_state" by code_simp
  have len: "length (existing_profiles browser_state) = 1" by code_simp
  from update_mode_toggles_default [of browser_dir "''Default Profile''" "''abc.Default (release)''"]
  obtain st where st: "register_parse (profiles_ini browser_dir) = Inr st"
    and r: "register_profile_in_ini browser_dir ''Default Profile'' ''abc.Default (release)'' True
         = Inr (browser_dir\<lparr>profiles_ini := Some (render_registry
              (general_section
               # merged_update (existing_profiles st) ''Default Profile''
               @ map (install_section ''abc.Default (release)'') (sort (map fst (install_sections st)))))\<rparr>)"
    and nth: "\<forall>i < length (existing_profiles st).
           merged_update (existing_profiles st) ''Default Profile'' ! i
             = (''Profile'' @ str_nat i,
                filter (\<lambda>(key, value). key \<noteq> ''Default'') (existing_profiles st ! i)
                @ (if dict_get (existing_profiles st ! i) ''Name'' = Some ''Default Profile''
                   then [(''Default'', ''1'')] else []))"
    by (elim conjE exE)
  from st p have eq: "st = browser_state" by simp
  have t: "browser_dir\<lparr>profiles_ini := Some (render_registry
              (general_section
               # merged_update (existing_profiles browser_state) ''Default Profile''
               @ map (install_section ''abc.Default (release)'')
                   (sort (map fst (install_sections browser_state)))))\<rparr>
       = \<lparr>profiles_ini = Some (join_nl
            [''[General]'', ''StartWithLastProfile=1'', ''Version=2'', '''',
             ''[Profile0]'', ''Name=Default Profile'', ''IsRelative=1'',
             ''Path=abc.Default (release)'', ''Default=1'', '''',
             ''[Install4F96D1932A9F858E]'', ''Default=abc.Default (release)'', ''Locked=1'', '''']),
          installs_ini = None\<rparr>"
    by code_simp
  have z: "(0::nat) < length (existing_profiles browser_state)" using len by simp
  have v: "(''Profile'' @ str_nat 0,
                filter (\<lambda>(key, value). key \<noteq> ''Default'') (existing_profiles browser_state ! 0)
                @ (if dict_get (existing_profiles browser_state ! 0) ''Name'' = Some ''Default Profile''
                   then [(''Default'', ''1'')] else []))
       = (''Profile0'', [(''Name'', ''Default Profile''), (''IsRelative'', ''1''),
                         (''Path'', ''abc.Default (release)''), (''Default'', ''1'')])"
    by code_simp
  from nth [unfolded eq, rule_format, OF z]
  have n0: "merged_update (existing_profiles browser_state) ''Default Profile'' ! 0
       = (''Profile0'', [(''Name'', ''Default Profile''), (''IsRelative'', ''1''),
                         (''Path'', ''abc.Default (release)''), (''Default'', ''1'')])"
    unfolding v .
  from p len r [unfolded eq t] n0 show ?thesis by (intro conjI)
qed

theorem update_mode_keeps_numbering_counterexample:
  "section_headers (split_on nl numbered_registry) = [''Profile5'']
   \<and> register_profile_in_ini \<lparr>profiles_ini = Some numbered_registry, installs_ini = None\<rparr>
         ''work'' ''work.default'' True
       = Inr \<lparr>profiles_ini = Some (join_nl
            [''[General]'', ''StartWithLastProfile=1'', ''Version=2'', '''',
             ''[Profile0]'', ''Name=work'', ''IsRelative=1'', ''Path=work.default'',
             ''Default=1'', '''']),
          installs_ini = None\<rparr>
   \<and> section_headers
         [''[General]'', ''StartWithLastProfile=1'', ''Version=2'', '''',
          ''[Profile0]'', ''Name=work'', ''IsRelative=1'', ''Path=work.default'',
          ''Default=1'', '''']
       = [''General'', ''Profile0'']"
  by code_simp

section \<open>The default profile after a merge\<close>

lemma startswith_Profile: "startswith (''Profile'' @ s) ''Profile''"
  by (simp add: startswith_def)

lemma install_not_Profile: "\<not> startswith (''Install'' @ s) ''Profile''"
  by (simp add: startswith_def)

lemma profile_not_Install: "\<not> startswith (''Profile'' @ s) ''Install''"
  by (simp add: startswith_def)

lemma general_not_Profile: "\<not> startswith ''General'' ''Profile''" "\<not> startswith ''General'' ''Install''"
  by (simp_all add: startswith_def)



















section \<open>The install sections of \<open>profiles.ini\<close>\<close>

lemma merged_update_not_install:
  "sec \<in> set (merged_update profs profile_name) \<Longrightarrow> \<not> startswith (fst sec) ''Install''"
  by (auto simp: merged_update_def profile_section_def startswith_def)

lemma merged_insert_not_install:
  "sec \<in> set (merged_insert profs profile_name relative_path) \<Longrightarrow> \<not> startswith (fst sec) ''Install''"
  by (auto simp: merged_insert_def target_section_def profile_section_def startswith_def)

lemma general_not_install: "\<not> startswith (fst general_section) ''Install''"
  by (simp add: general_section_def startswith_def)

lemma merged_registry_split:
  "merged_registry st profile_name relative_path update_only
     = merged_profiles_part st profile_name relative_path update_only
       @ map (install_section relative_path) (sort (map fst (install_sections st)))"
  by (simp add: merged_registry_def merged_profiles_part_def)

lemma merged_profiles_part_not_install:
  "sec \<in> set (merged_profiles_part st profile_name relative_path update_only)
     \<Longrightarrow> \<not> startswith (fst sec) ''Install''"
proof -
  assume "sec \<in> set (merged_profiles_part st profile_name relative_path update_only)"
  then have "sec = general_section
      \<or> sec \<in> set (merged_update (existing_profiles st) profile_name)
      \<or> sec \<in> set (merged_insert (filter (\<lambda>prof. \<not> named profile_name prof) (existing_profiles st))
                       profile_name relative_path)"
    by (auto simp: merged_profiles_part_def split: if_splits)
  then show ?thesis
    using merged_update_not_install merged_insert_not_install general_not_install by blast
qed




text \<open>
  C10. After a merge in either mode, every section of the written registry whose name
  starts with \<open>Install\<close> holds exactly the two keys \<open>Default\<close> (the relative path) and
  \<open>Locked\<close> (\<open>1\<close>); the written registry depends on the parsed install sections only through
  their hashes, so the keys and values they held in the input are not written.
\<close>

theorem install_sections_only_default_locked:
  "\<exists>st. register_parse (profiles_ini dir) = Inr st
     \<and> register_profile_in_ini dir profile_name relative_path update_only
         = Inr (dir\<lparr>profiles_ini :=
                  Some (render_registry (merged_registry st profile_name relative_path update_only))\<rparr>)
     \<and> (\<forall>sec \<in> set (merged_registry st profile_name relative_path update_only).
           is_install_section sec \<longrightarrow> snd sec = [(''Default'', relative_path), (''Locked'', ''1'')])
     \<and> (\<forall>st2. existing_profiles st2 = existing_profiles st
               \<and> map fst (install_sections st2) = map fst (install_sections st) \<longrightarrow>
             merged_registry st2 profile_name relative_path update_only
               = merged_registry st profile_name relative_path update_only)"
proof -
  from register_parse_total obtain st where st: "register_parse (profiles_ini dir) = Inr st" ..
  have "\<forall>sec \<in> set (merged_registry st profile_name relative_path update_only).
           is_install_section sec \<longrightarrow> snd sec = [(''Default'', relative_path), (''Locked'', ''1'')]"
  proof (intro ballI impI)
    fix sec
    assume mem: "sec \<in> set (merged_registry st profile_name relative_path update_only)"
      and inst: "is_install_section sec"
    from inst merged_profiles_part_not_install [of sec st profile_name relative_path update_only]
    have "sec \<notin> set (merged_profiles_part st profile_name relative_path update_only)"
      by (auto simp: is_install_section_def)
    with mem have "sec \<in> set (map (install_section relative_path) (sort (map fst (install_sections st))))"
      by (simp add: merged_registry_split)
    then show "snd sec = [(''Default'', relative_path), (''Locked'', ''1'')]"
      by (auto simp: install_section_def)
  qed
  moreover have "\<forall>st2. existing_profiles st2 = existing_profiles st
               \<and> map fst (install_sections st2) = map fst (install_sections st) \<longrightarrow>
             merged_registry st2 profile_name relative_path update_only
               = merged_registry st profile_name relative_path update_only"
    by (simp add: merged_registry_def)
  ultimately show ?thesis using st register_profile_in_ini_eq [OF st] by blast
qed

theorem install_sections_only_default_locked_witness:
  "register_parse (profiles_ini browser_dir) = Inr browser_state
   \<and> dict_get (install_sections browser_state) ''4F96D1932A9F858E''
       = Some [(''Default'', ''abc.Default (release)''), (''Locked'', ''1''), (''Extra'', ''kept?'')]
   \<and> filter is_install_section (merged_registry browser_state ''work'' ''work.default'' False)
       = [(''Install4F96D1932A9F858E'', [(''Default'', ''work.default''), (''Locked'', ''1'')])]
   \<and> is_install_section (''Install4F96D1932A9F858E'', [(''Default'', ''work.default''), (''Locked'', ''1'')])"
proof -
  let ?sec = "(''Install4F96D1932A9F858E'', [(''Default'', ''work.default''), (''Locked'', ''1'')])"
  have p: "register_parse (profiles_ini browser_dir) = Inr browser_state" by code_simp
  have g: "dict_get (install_sections browser_state) ''4F96D1932A9F858E''
       = Some [(''Default'', ''abc.Default (release)''), (''Locked'', ''1''), (''Extra'', ''kept?'')]"
    by code_simp
  have i: "is_install_section ?sec" by code_simp
  have names: "map fst (filter is_install_section (merged_registry browser_state ''work'' ''work.default'' False))
       = [''Install4F96D1932A9F858E'']" by code_simp
  from install_sections_only_default_locked [of browser_dir "''work''" "''work.default''" False]
  obtain st where st: "register_parse (profiles_ini browser_dir) = Inr st"
    and b: "\<forall>sec \<in> set (merged_registry st ''work'' ''work.default'' False).
           is_install_section sec \<longrightarrow> snd sec = [(''Default'', ''work.default''), (''Locked'', ''1'')]"
    by (elim conjE exE)
  from st p have eq: "st = browser_state" by simp
  have ball: "\<forall>sec \<in> set (filter is_install_section (merged_registry browser_state ''work'' ''work.default'' False)).
          snd sec = [(''Default'', ''work.default''), (''Locked'', ''1'')]"
  proof (intro ballI)
    fix sec
    assume "sec \<in> set (filter is_install_section (merged_registry browser_state ''work'' ''work.default'' False))"
    then have "sec \<in> set (merged_registry browser_state ''work'' ''work.default'' False)"
      and "is_install_section sec" by simp_all
    with b [unfolded eq] show "snd sec = [(''Default'', ''work.default''), (''Locked'', ''1'')]"
      by blast
  qed
  have "map snd (filter is_install_section (merged_registry browser_state ''work'' ''work.default'' False))
       = map (\<lambda>sec. [(''Default'', ''work.default''), (''Locked'', ''1'')])
           (filter is_install_section (merged_registry browser_state ''work'' ''work.default'' False))"
  proof (rule map_cong [OF refl])
    fix x
    assume "x \<in> set (filter is_install_section (merged_registry browser_state ''work'' ''work.default'' False))"
    with ball show "snd x = [(''Default'', ''work.default''), (''Locked'', ''1'')]" by blast
  qed
  with names have "filter is_install_section (merged_registry browser_state ''work'' ''work.default'' False)
       = [?sec]"
    by (cases "filter is_install_section (merged_registry browser_state ''work'' ''work.default'' False)")
       (auto simp: prod_eq_iff)
  with p g i show ?thesis by (intro conjI)
qed

section \<open>The installs file\<close>

lemma installs_file_section_eq:
  "installs_file_section relative_path = (\<lambda>h. (h, [(''Default'', relative_path), (''Locked'', ''1'')]))"
  by (rule ext) (simp add: installs_file_section_def)

lemma update_installs_ini_eq:
  assumes "installs_parse (installs_ini dir) = Inr sections"
  shows "update_installs_ini dir relative_path
     = (let hs = install_hashes_from_profiles (profiles_ini dir);
            all_hashes = (if hs \<noteq> [] then hs else map fst sections)
        in if all_hashes \<noteq> []
           then Inr (dir\<lparr>installs_ini := Some (render_registry
                  (map (\<lambda>h. (h, [(''Default'', relative_path), (''Locked'', ''1'')])) (sort all_hashes)))\<rparr>)
           else Inr (dir\<lparr>installs_ini := None\<rparr>))"
  using assms
  by (simp add: update_installs_ini_def Let_def installs_loop_eq render_registry_def
      installs_file_section_eq)

text \<open>
  C2, as amended. The hashes read from \<open>profiles.ini\<close> are the texts between \<open>[Install\<close> and
  \<open>]\<close> of its install header lines, each once. When there is at least one, \<open>installs.ini\<close>
  is written with exactly one section per hash, in ascending order, each holding
  \<open>Default=<relative path>\<close> and \<open>Locked=1\<close>, whatever the installs file held. When there is
  none, the section names of the existing \<open>installs.ini\<close> are used in their place, and the
  file is rewritten with one such section per name; only when that file is absent or has
  no section is the result no installs file at all. No section name is invented.
\<close>

theorem installs_file_follows_profiles:
  "\<exists>sections. installs_parse (installs_ini dir) = Inr sections
     \<and> distinct (install_hashes_from_profiles (profiles_ini dir))
     \<and> set (install_hashes_from_profiles (profiles_ini dir))
         = slice_8_m1 ` {l \<in> strip ` set (file_lines (profiles_ini dir)).
                           startswith l ''[Install'' \<and> endswith l '']''}
     \<and> (installs_ini dir = None \<longrightarrow> sections = [])
     \<and> (install_hashes_from_profiles (profiles_ini dir) \<noteq> [] \<longrightarrow>
          update_installs_ini dir relative_path
            = Inr (dir\<lparr>installs_ini := Some (render_registry
                 (map (\<lambda>h. (h, [(''Default'', relative_path), (''Locked'', ''1'')]))
                    (sort (install_hashes_from_profiles (profiles_ini dir)))))\<rparr>))
     \<and> (install_hashes_from_profiles (profiles_ini dir) = [] \<and> sections \<noteq> [] \<longrightarrow>
          update_installs_ini dir relative_path
            = Inr (dir\<lparr>installs_ini := Some (render_registry
                 (map (\<lambda>h. (h, [(''Default'', relative_path), (''Locked'', ''1'')]))
                    (sort (map fst sections))))\<rparr>))
     \<and> (install_hashes_from_profiles (profiles_ini dir) = [] \<and> sections = [] \<longrightarrow>
          update_installs_ini dir relative_path = Inr (dir\<lparr>installs_ini := None\<rparr>))"
proof -
  from installs_parse_total obtain sections where
    s: "installs_parse (installs_ini dir) = Inr sections" ..
  have none: "installs_ini dir = None \<longrightarrow> sections = []"
    using s by (auto simp: installs_parse_def)
  note eq = update_installs_ini_eq [OF s, of relative_path]
  have a: "install_hashes_from_profiles (profiles_ini dir) \<noteq> [] \<longrightarrow>
          update_installs_ini dir relative_path
            = Inr (dir\<lparr>installs_ini := Some (render_registry
                 (map (\<lambda>h. (h, [(''Default'', relative_path), (''Locked'', ''1'')]))
                    (sort (install_hashes_from_profiles (profiles_ini dir)))))\<rparr>)"
    by (simp add: eq Let_def)
  have b: "install_hashes_from_profiles (profiles_ini dir) = [] \<and> sections \<noteq> [] \<longrightarrow>
          update_installs_ini dir relative_path
            = Inr (dir\<lparr>installs_ini := Some (render_registry
                 (map (\<lambda>h. (h, [(''Default'', relative_path), (''Locked'', ''1'')]))
                    (sort (map fst sections))))\<rparr>)"
    by (simp add: eq Let_def)
  have c: "install_hashes_from_profiles (profiles_ini dir) = [] \<and> sections = [] \<longrightarrow>
          update_installs_ini dir relative_path = Inr (dir\<lparr>installs_ini := None\<rparr>)"
    by (simp add: eq Let_def)
  show ?thesis
    by (rule exI [of _ sections])
       (intro conjI s none a b c install_hashes_from_profiles_distinct
          install_hashes_from_profiles_set)
qed

theorem installs_file_follows_profiles_witness:
  "install_hashes_from_profiles (Some browser_registry) = [''4F96D1932A9F858E'']
   \<and> update_installs_ini \<lparr>profiles_ini = Some browser_registry, installs_ini = Some stale_installs\<rparr>
        ''work.default''
       = Inr \<lparr>profiles_ini = Some browser_registry,
              installs_ini = Some (join_nl
                [''[4F96D1932A9F858E]'', ''Default=work.default'', ''Locked=1'', ''''])\<rparr>
   \<and> install_hashes_from_profiles (Some ''[General]'') = []
   \<and> installs_parse (Some stale_installs)
       = Inr [(''4F96D1932A9F858E'', [(''Default'', ''old.default''), (''Locked'', ''1'')])]
   \<and> update_installs_ini \<lparr>profiles_ini = Some ''[General]'', installs_ini = Some stale_installs\<rparr>
        ''work.default''
       = Inr \<lparr>profiles_ini = Some ''[General]'',
              installs_ini = Some (join_nl
                [''[4F96D1932A9F858E]'', ''Default=work.default'', ''Locked=1'', ''''])\<rparr>
   \<and> installs_parse (Some ''stale'') = Inr []
   \<and> update_installs_ini \<lparr>profiles_ini = Some ''[General]'', installs_ini = Some ''stale''\<rparr>
        ''work.default''
       = Inr \<lparr>profiles_ini = Some ''[General]'', installs_ini = None\<rparr>"
proof -
  let ?d1 = "\<lparr>profiles_ini = Some browser_registry, installs_ini = Some stale_installs\<rparr>"
  let ?d2 = "\<lparr>profiles_ini = Some ''[General]'', installs_ini = Some stale_installs\<rparr>"
  let ?d3 = "\<lparr>profiles_ini = Some ''[General]'', installs_ini = Some ''stale''\<rparr>"
  have h1: "install_hashes_from_profiles (Some browser_registry) = [''4F96D1932A9F858E'']"
    by code_simp
  have h2: "install_hashes_from_profiles (Some ''[General]'') = []" by code_simp
  have p2: "installs_parse (Some stale_installs)
       = Inr [(''4F96D1932A9F858E'', [(''Default'', ''old.default''), (''Locked'', ''1'')])]"
    by code_simp
  have p3: "installs_parse (Some ''stale'') = Inr []" by code_simp
  have t1: "?d1\<lparr>installs_ini := Some (render_registry
                 (map (\<lambda>h. (h, [(''Default'', ''work.default''), (''Locked'', ''1'')]))
                    (sort [''4F96D1932A9F858E''])))\<rparr>
       = \<lparr>profiles_ini = Some browser_registry,
              installs_ini = Some (join_nl
                [''[4F96D1932A9F858E]'', ''Default=work.default'', ''Locked=1'', ''''])\<rparr>"
    by code_simp
  have t2: "?d2\<lparr>installs_ini := Some (render_registry
                 (map (\<lambda>h. (h, [(''Default'', ''work.default''), (''Locked'', ''1'')]))
                    (sort (map fst [(''4F96D1932A9F858E'',
                        [(''Default'', ''old.default''), (''Locked'', ''1'')])]))))\<rparr>
       = \<lparr>profiles_ini = Some ''[General]'',
              installs_ini = Some (join_nl
                [''[4F96D1932A9F858E]'', ''Default=work.default'', ''Locked=1'', ''''])\<rparr>"
    by code_simp
  have t3: "?d3\<lparr>installs_ini := None\<rparr> = \<lparr>profiles_ini = Some ''[General]'', installs_ini = None\<rparr>"
    by simp
  from installs_file_follows_profiles [of ?d1 "''work.default''"]
  have "install_hashes_from_profiles (profiles_ini ?d1) \<noteq> [] \<longrightarrow>
          update_installs_ini ?d1 ''work.default''
            = Inr (?d1\<lparr>installs_ini := Some (render_registry
                 (map (\<lambda>h. (h, [(''Default'', ''work.default''), (''Locked'', ''1'')]))
                    (sort (install_hashes_from_profiles (profiles_ini ?d1)))))\<rparr>)"
    by (elim conjE exE)
  then have r1: "update_installs_ini ?d1 ''work.default''
       = Inr \<lparr>profiles_ini = Some browser_registry,
              installs_ini = Some (join_nl
                [''[4F96D1932A9F858E]'', ''Default=work.default'', ''Locked=1'', ''''])\<rparr>"
    using h1 t1 by simp
  from installs_file_follows_profiles [of ?d2 "''work.default''"]
  obtain s2 where s2: "installs_parse (installs_ini ?d2) = Inr s2"
    and i2: "install_hashes_from_profiles (profiles_ini ?d2) = [] \<and> s2 \<noteq> [] \<longrightarrow>
          update_installs_ini ?d2 ''work.default''
            = Inr (?d2\<lparr>installs_ini := Some (render_registry
                 (map (\<lambda>h. (h, [(''Default'', ''work.default''), (''Locked'', ''1'')]))
                    (sort (map fst s2))))\<rparr>)"
    by (elim conjE exE)
  from s2 p2 have e2: "s2 = [(''4F96D1932A9F858E'', [(''Default'', ''old.default''), (''Locked'', ''1'')])]"
    by simp
  from i2 h2 have r2: "update_installs_ini ?d2 ''work.default''
       = Inr \<lparr>profiles_ini = Some ''[General]'',
              installs_ini = Some (join_nl
                [''[4F96D1932A9F858E]'', ''Default=work.default'', ''Locked=1'', ''''])\<rparr>"
    unfolding e2 using t2 by simp
  from installs_file_follows_profiles [of ?d3 "''work.default''"]
  obtain s3 where s3: "installs_parse (installs_ini ?d3) = Inr s3"
    and i3: "install_hashes_from_profiles (profiles_ini ?d3) = [] \<and> s3 = [] \<longrightarrow>
          update_installs_ini ?d3 ''work.default'' = Inr (?d3\<lparr>installs_ini := None\<rparr>)"
    by (elim conjE exE)
  from s3 p3 have e3: "s3 = []" by simp
  from i3 h2 e3 have r3: "update_installs_ini ?d3 ''work.default''
       = Inr \<lparr>profiles_ini = Some ''[General]'', installs_ini = None\<rparr>"
    by simp
  from h1 r1 h2 p2 r2 p3 r3 show ?thesis by (intro conjI)
qed

theorem stale_installs_deleted_counterexample:
  "registry_merge \<lparr>profiles_ini = None, installs_ini = Some stale_installs\<rparr>
      ''work'' ''work.default'' False
     = Inr \<lparr>profiles_ini = Some (join_nl
              [''[General]'', ''StartWithLastProfile=1'', ''Version=2'', '''',
               ''[Profile0]'', ''Name=work'', ''IsRelative=1'', ''Path=work.default'',
               ''Default=1'', '''']),
            installs_ini = Some (join_nl
              [''[4F96D1932A9F858E]'', ''Default=work.default'', ''Locked=1'', ''''])\<rparr>
   \<and> install_hashes_from_profiles (Some (join_nl
              [''[General]'', ''StartWithLastProfile=1'', ''Version=2'', '''',
               ''[Profile0]'', ''Name=work'', ''IsRelative=1'', ''Path=work.default'',
               ''Default=1'', ''''])) = []"
  by code_simp

section \<open>Tolerance of the parsers\<close>

lemma registry_merge_total: "\<exists>dir'. registry_merge dir profile_name relative_path update_only = Inr dir'"
proof -
  from register_parse_total obtain st where st: "register_parse (profiles_ini dir) = Inr st" ..
  let ?dir1 = "dir\<lparr>profiles_ini :=
                  Some (render_registry (merged_registry st profile_name relative_path update_only))\<rparr>"
  from installs_parse_total obtain sections where
    s: "installs_parse (installs_ini ?dir1) = Inr sections" ..
  have "\<exists>dir'. update_installs_ini ?dir1 relative_path = Inr dir'"
    by (simp add: update_installs_ini_eq [OF s] Let_def)
  with register_profile_in_ini_eq [OF st, of profile_name relative_path update_only]
  show ?thesis by (simp add: registry_merge_def)
qed

lemma parse_profiles_ini_total: "\<exists>r. parse_profiles_ini content profile_name = Inr r"
proof -
  from section_parse_lines_total [OF section_inv_init, of "split_on nl content"]
  obtain st where "section_parse_lines section_init (split_on nl content) = Inr st" by blast
  then show ?thesis by (simp add: parse_profiles_ini_def)
qed

text \<open>
  C8. The parsers of the registry return a result for every text: the loop of
  \<open>_register_profile_in_ini\<close>, \<open>_parse_profiles_ini\<close> and the section parser of
  \<open>_update_installs_ini\<close> never raise, and so the whole merge returns for every state of
  the two files. A line that is neither a header nor contains \<open>=\<close> changes nothing:
  parsing the lines without such lines gives the same result. Lines that come before any
  section header, \<open>key=value\<close> lines included, change nothing either. A file that does not
  exist is parsed as the empty registry.
\<close>

theorem registry_parser_tolerant:
  "(\<exists>st. register_parse file = Inr st)
   \<and> (\<exists>r. parse_profiles_ini content profile_name = Inr r)
   \<and> (\<exists>sections. installs_parse file = Inr sections)
   \<and> (\<exists>dir'. registry_merge dir profile_name relative_path update_only = Inr dir')
   \<and> register_parse_lines st (filter (\<lambda>raw. \<not> malformed raw) ls) = register_parse_lines st ls
   \<and> section_parse_lines sst (filter (\<lambda>raw. \<not> malformed raw) ls) = section_parse_lines sst ls
   \<and> ((\<forall>raw \<in> set pre. \<not> is_header (strip raw)) \<longrightarrow>
        register_parse_lines parse_init (pre @ ls) = register_parse_lines parse_init ls
        \<and> section_parse_lines section_init (pre @ ls) = section_parse_lines section_init ls)
   \<and> register_parse None = Inr parse_init
   \<and> installs_parse None = Inr []
   \<and> install_hashes_from_profiles None = []"
proof (intro conjI impI)
  show "\<exists>st. register_parse file = Inr st" by (rule register_parse_total)
  show "\<exists>r. parse_profiles_ini content profile_name = Inr r" by (rule parse_profiles_ini_total)
  show "\<exists>sections. installs_parse file = Inr sections" by (rule installs_parse_total)
  show "\<exists>dir'. registry_merge dir profile_name relative_path update_only = Inr dir'"
    by (rule registry_merge_total)
  show "register_parse_lines st (filter (\<lambda>raw. \<not> malformed raw) ls) = register_parse_lines st ls"
    by (rule register_parse_lines_filter)
  show "section_parse_lines sst (filter (\<lambda>raw. \<not> malformed raw) ls) = section_parse_lines sst ls"
    by (rule section_parse_lines_filter)
  show "register_parse None = Inr parse_init" by (simp add: register_parse_def)
  show "installs_parse None = Inr []" by (simp add: installs_parse_def)
  show "install_hashes_from_profiles None = []" by (simp add: install_hashes_from_profiles_def)
next
  assume a: "\<forall>raw \<in> set pre. \<not> is_header (strip raw)"
  show "register_parse_lines parse_init (pre @ ls) = register_parse_lines parse_init ls"
    by (rule register_parse_lines_before_header [OF a]) (simp add: truthy_def parse_init_def)
next
  assume a: "\<forall>raw \<in> set pre. \<not> is_header (strip raw)"
  show "section_parse_lines section_init (pre @ ls) = section_parse_lines section_init ls"
    by (rule section_parse_lines_before_header [OF a]) (simp add: truthy_def section_init_def)
qed

theorem registry_parser_tolerant_witness:
  "filter is_header (map strip [''Name=orphan'', ''no equals sign'']) = []
   \<and> register_parse_lines parse_init ([''Name=orphan'', ''no equals sign''] @ split_on nl browser_registry)
       = Inr browser_state
   \<and> register_parse_lines parse_init (split_on nl browser_registry) = Inr browser_state"
proof -
  have f: "filter is_header (map strip [''Name=orphan'', ''no equals sign'']) = []" by code_simp
  then have a: "\<forall>raw \<in> set [''Name=orphan'', ''no equals sign'']. \<not> is_header (strip raw)"
    by (simp split: if_splits)
  have p: "register_parse_lines parse_init (split_on nl browser_registry) = Inr browser_state"
    by code_simp
  from registry_parser_tolerant [where pre = "[''Name=orphan'', ''no equals sign'']"
      and ls = "split_on nl browser_registry"] a
  have "register_parse_lines parse_init ([''Name=orphan'', ''no equals sign''] @ split_on nl browser_registry)
       = register_parse_lines parse_init (split_on nl browser_registry)"
    by blast
  with f p show ?thesis by simp
qed

section \<open>Stripping, splitting and joining\<close>


lemma last_dropWhile: "dropWhile P xs \<noteq> [] \<Longrightarrow> last (dropWhile P xs) = last xs"
proof -
  assume a: "dropWhile P xs \<noteq> []"
  have "last xs = last (takeWhile P xs @ dropWhile P xs)" by simp
  also have "\<dots> = last (dropWhile P xs)" using a by (rule last_appendR)
  finally show ?thesis by simp
qed

lemma strip_trimmed: "trimmed s \<Longrightarrow> strip s = s"
proof (cases "s = []")
  case True
  then show ?thesis by (simp add: strip_def)
next
  case False
  assume "trimmed s"
  with False have h: "\<not> is_space (hd s)" and l: "\<not> is_space (last s)" by (simp_all add: trimmed_def)
  from h have 1: "dropWhile is_space s = s" by (simp add: dropWhile_eq_self_iff)
  from l False have 2: "dropWhile is_space (rev s) = rev s" by (simp add: dropWhile_eq_self_iff hd_rev)
  show ?thesis by (simp add: strip_def 1 2)
qed

lemma trimmed_strip: "trimmed (strip s)"
proof (cases "strip s = []")
  case True
  then show ?thesis by (simp add: trimmed_def)
next
  case False
  let ?t = "dropWhile is_space s"
  let ?r = "dropWhile is_space (rev ?t)"
  from False have r: "?r \<noteq> []" by (simp add: strip_def)
  have t: "?t \<noteq> []"
  proof
    assume e: "?t = []"
    have "?r = []" unfolding e by simp
    with r show False by contradiction
  qed
  have "last (strip s) = hd ?r" by (simp add: strip_def last_rev)
  moreover have "\<not> is_space (hd ?r)" using r by (rule hd_dropWhile)
  moreover have "hd (strip s) = last ?r" by (simp add: strip_def hd_rev)
  moreover have "last ?r = last (rev ?t)" using r by (rule last_dropWhile)
  moreover have "last (rev ?t) = hd ?t" by (simp add: last_rev)
  moreover have "\<not> is_space (hd ?t)" using t by (rule hd_dropWhile)
  ultimately show ?thesis by (simp add: trimmed_def)
qed

lemma strip_idem: "strip (strip s) = strip s"
  by (rule strip_trimmed) (rule trimmed_strip)


















section \<open>The parse state that matters\<close>




section \<open>What every parsed registry satisfies\<close>











section \<open>Reading back a written registry\<close>

















section \<open>Merging a merged registry\<close>




















section \<open>The text of a merged registry\<close>


















section \<open>Registering twice\<close>



section \<open>Updating the installs file twice\<close>











section \<open>An insert followed by an update\<close>







section \<open>Running the merge twice\<close>





end
